theory Spec2Isabelle
  imports Main "HOL-Library.Word" "HOL-Library.Multiset"
begin

section \<open>Strings\<close>

text \<open>
  Text is a \<^typ>\<open>string\<close> holding the UTF-8 bytes of the JavaScript string. The separators the
  program splits and searches on are ASCII, so the byte-wise operations below agree with the
  JavaScript ones; the operations that depend on Unicode tables or on the locale
  (\<open>toLowerCase\<close>, \<open>trim\<close>, \<open>localeCompare\<close>, regular expressions, number formatting) are
  fields of the runtime environment \<open>env\<close> declared further down.
\<close>

definition startsWith :: "string \<Rightarrow> string \<Rightarrow> bool" where
  "startsWith s p = (take (length p) s = p)"

definition endsWith :: "string \<Rightarrow> string \<Rightarrow> bool" where
  "endsWith s p = (length p \<le> length s \<and> drop (length s - length p) s = p)"

fun str_includes :: "string \<Rightarrow> string \<Rightarrow> bool" where
  "str_includes [] p = (p = [])"
| "str_includes (c # cs) p = (startsWith (c # cs) p \<or> str_includes cs p)"

text \<open>\<open>s.split(sep)\<close> for a one-character separator: never an empty array.\<close>

fun split_char :: "char \<Rightarrow> string \<Rightarrow> string list" where
  "split_char sep [] = [[]]"
| "split_char sep (c # cs) =
     (if c = sep then [] # split_char sep cs
      else (case split_char sep cs of
              [] \<Rightarrow> [[c]]
            | w # ws \<Rightarrow> (c # w) # ws))"

fun js_join :: "string \<Rightarrow> string list \<Rightarrow> string" where
  "js_join sep [] = []"
| "js_join sep [x] = x"
| "js_join sep (x # y # ys) = x @ sep @ js_join sep (y # ys)"

text \<open>\<open>s.replace(/c/g, r)\<close> for a single literal character \<open>c\<close>.\<close>

definition replace_char :: "char \<Rightarrow> string \<Rightarrow> string \<Rightarrow> string" where
  "replace_char c r s = concat (map (\<lambda>x. if x = c then r else [x]) s)"

text \<open>\<open>text.length\<close>: the number of UTF-16 code units of a UTF-8 encoded text.\<close>

definition utf16_units :: "char \<Rightarrow> nat" where
  "utf16_units c = (let n = (of_char c :: nat) in
     if n < 128 then 1 else if n < 192 then 0 else if n < 240 then 1 else 2)"

definition js_length :: "string \<Rightarrow> nat" where
  "js_length s = sum_list (map utf16_units s)"

definition digit_char :: "nat \<Rightarrow> char" where
  "digit_char d = char_of (48 + d)"

function show_nat :: "nat \<Rightarrow> string" where
  "show_nat n = (if n < 10 then [digit_char n] else show_nat (n div 10) @ [digit_char (n mod 10)])"
  by pat_completeness auto
termination
  by (relation "measure id") auto

declare show_nat.simps [simp del]

definition is_alnum :: "char \<Rightarrow> bool" where
  "is_alnum c = (let n = (of_char c :: nat) in
     (97 \<le> n \<and> n \<le> 122) \<or> (65 \<le> n \<and> n \<le> 90) \<or> (48 \<le> n \<and> n \<le> 57))"

text \<open>A JavaScript \<open>Set\<close> of strings is a duplicate-free list in insertion order.\<close>

definition set_add :: "string \<Rightarrow> string list \<Rightarrow> string list" where
  "set_add x xs = (if x \<in> set xs then xs else xs @ [x])"

definition set_delete :: "string \<Rightarrow> string list \<Rightarrow> string list" where
  "set_delete x xs = removeAll x xs"

definition new_Set :: "string list \<Rightarrow> string list" where
  "new_Set xs = fold set_add xs []"

section \<open>Configuration (config.ts)\<close>

definition MAX_FILE_SIZE :: nat where
  "MAX_FILE_SIZE = 10 * 1024 * 1024"

definition MAX_DIRECTORY_DEPTH :: nat where
  "MAX_DIRECTORY_DEPTH = 20"

definition MAX_FILES :: nat where
  "MAX_FILES = 10000"

definition MAX_TOTAL_SIZE_BYTES :: nat where
  "MAX_TOTAL_SIZE_BYTES = 500 * 1024 * 1024"

section \<open>Data model\<close>

datatype FileSystemNodeType = DIRECTORY | FILE

text \<open>
  \<open>FileSystemNode\<close> (types/filesystem_schema.ts). The fields \<open>type\<close> and \<open>size\<close> are
  called \<open>ntype\<close> and \<open>nsize\<close> here. Nodes are mutable objects in the source; the model
  passes the updated node back.
\<close>

datatype FileSystemNode = FileSystemNode
  (name: string) (ntype: FileSystemNodeType) (path_str: string) (path: string)
  (nsize: nat) (file_count: nat) (dir_count: nat) (depth: nat)
  (children: "FileSystemNode list")

definition new_FileSystemNode ::
  "string \<Rightarrow> FileSystemNodeType \<Rightarrow> string \<Rightarrow> string \<Rightarrow> FileSystemNode" where
  "new_FileSystemNode nm ty ps p = FileSystemNode nm ty ps p 0 0 0 0 []"

record FileSystemStats =
  visited :: "string set"
  total_files :: nat
  total_size :: nat

definition new_FileSystemStats :: FileSystemStats where
  "new_FileSystemStats = \<lparr>visited = {}, total_files = 0, total_size = 0\<rparr>"

text \<open>
  \<open>IngestionQuery\<close> (types/ingestion_schema.ts); \<open>id\<close> and \<open>type\<close> are called \<open>query_id\<close>
  and \<open>qtype\<close>. An optional field is an \<open>option\<close>.
\<close>

record IngestionQuery =
  user_name :: "string option"
  repo_name :: "string option"
  local_path :: string
  url :: "string option"
  slug :: string
  query_id :: string
  subpath :: string
  qtype :: string
  branch :: "string option"
  commit :: "string option"
  max_file_size :: nat
  ignore_patterns :: "string list"
  include_patterns :: "string list option"

text \<open>A thrown JavaScript \<open>Error\<close>: its name and message; \<open>`${exc}`\<close> is \<open>exn_toString\<close>.\<close>

datatype js_exn = Exn (exn_name: string) (exn_message: string)

definition exn_toString :: "js_exn \<Rightarrow> string" where
  "exn_toString x =
     (if exn_message x = [] then exn_name x
      else if exn_name x = [] then exn_message x
      else exn_name x @ '': '' @ exn_message x)"

text \<open>The failures that leave \<open>ingestQuery\<close> and \<open>parseQuery\<close> as exceptions.\<close>

datatype error =
    CannotBeFound string
  | IsNotAFile string
  | HasNoContent string
  | NeitherFileNorDirectory string
  | SortNonDirectory
  | ContentOfDirectory
  | FsRejected string
  | InvalidPatternError string

datatype entry_kind = IsFile | IsDirectory | IsOther

record Stats =
  st_kind :: entry_kind
  st_size :: nat

record Dirent =
  d_name :: string
  d_isSymbolicLink :: bool

text \<open>Jupyter notebooks after \<open>JSON.parse\<close>, in typed form (utils/notebook_utils.ts).\<close>

datatype text_field = TextOne string | TextMany "string list"

record nb_output =
  output_type :: string
  output_text :: text_field
  data_text_plain :: text_field
  ename :: string
  evalue :: string

datatype cell_source = SourceString string | SourceLines "string list"

record nb_cell =
  cell_type :: string
  source :: cell_source
  outputs :: "nb_output list"

record notebook =
  worksheets :: "nb_cell list list option"
  cells :: "nb_cell list"

text \<open>
  What \<open>toml.parse(content).config?.ignore_patterns\<close> evaluates to for the \<open>.gitingest\<close>
  file: the read or the parse throws, the value is falsy, one value, or an array.
\<close>

datatype toml_value = TomlString string | TomlOther

datatype gitingest_config =
    TomlThrows
  | IgnoreFalsy
  | IgnoreOne toml_value
  | IgnoreMany "toml_value list"

section \<open>The runtime environment\<close>

text \<open>
  Node.js and the file system, as the program sees them. Each field is one library call of
  the source; \<open>None\<close> (or \<open>Inl\<close>) is a call that throws or a promise that rejects.
\<close>

record env =
  os_platform :: string
  uuidv4 :: string
  path_join :: "string list \<Rightarrow> string"
  path_posix_join :: "string list \<Rightarrow> string"
  path_basename :: "string \<Rightarrow> string"
  path_relative :: "string \<Rightarrow> string \<Rightarrow> string"
  path_isAbsolute :: "string \<Rightarrow> bool"
  path_extname :: "string \<Rightarrow> string"
  fs_access :: "string \<Rightarrow> bool"
  fs_stat :: "string \<Rightarrow> Stats option"
  fs_lstat_isSymbolicLink :: "string \<Rightarrow> bool option"
  fs_readdir :: "string \<Rightarrow> Dirent list option"
  fs_realpath :: "string \<Rightarrow> string option"
  fs_readChunk :: "string \<Rightarrow> 8 word list option"
  fs_readFileSync :: "string \<Rightarrow> string \<Rightarrow> js_exn + string"
  JSON_parse :: "string \<Rightarrow> notebook option"
  gitingest_file :: "string \<Rightarrow> gitingest_config"
  regexp_test :: "string \<Rightarrow> string \<Rightarrow> bool option"
  toLowerCase :: "string \<Rightarrow> string"
  trim :: "string \<Rightarrow> string"
  localeCompare :: "string \<Rightarrow> string \<Rightarrow> int"
  toLocaleString :: "nat \<Rightarrow> string"
  toFixed1 :: "nat \<Rightarrow> nat \<Rightarrow> string"
  split_patterns :: "string \<Rightarrow> string list"

section \<open>Pattern validation and query construction\<close>

text \<open>
  utils/query_parser_utils.ts, the module \<open>parsePatterns\<close> imports:
  \<^verbatim>\<open>/^[a-zA-Z0-9\-_./+*]+$/.test(pattern)\<close>.
\<close>

definition isValidPattern :: "string \<Rightarrow> bool" where
  "isValidPattern pattern =
     (pattern \<noteq> [] \<and> list_all (\<lambda>c. is_alnum c \<or> c \<in> set ''-_./+*'') pattern)"

text \<open>
  utils/query_parser.ts, imported by no other module:
  \<^verbatim>\<open>[...pattern].every(c => /[a-zA-Z0-9]/.test(c) || '-_./+*@'.includes(c))\<close>.
\<close>

definition isValidPattern_query_parser :: "string \<Rightarrow> bool" where
  "isValidPattern_query_parser pattern =
     list_all (\<lambda>c. is_alnum c \<or> c \<in> set ''-_./+*@'') pattern"

text \<open>\<^verbatim>\<open>pattern.trim().replace(/^\/+|\/+$/g, '')\<close> (query_parser_utils.ts).\<close>

definition strip_slashes :: "string \<Rightarrow> string" where
  "strip_slashes s =
     rev (dropWhile (\<lambda>c. c = CHR ''/'') (rev (dropWhile (\<lambda>c. c = CHR ''/'') s)))"

definition normalizePattern :: "env \<Rightarrow> string \<Rightarrow> string" where
  "normalizePattern e pattern = strip_slashes (trim e pattern)"

datatype pattern_arg = PatternString string | PatternSet "string list"

definition invalid_pattern_message :: "string \<Rightarrow> string" where
  "invalid_pattern_message p =
     ''Invalid pattern: '' @ p @ ''. Only alphanumeric characters, dash (-), underscore (_), ''
       @ ''dot (.), forward slash (/), plus (+), and asterisk (*) are allowed.''"

fun parsePatterns_loop :: "env \<Rightarrow> string list \<Rightarrow> string list \<Rightarrow> error + string list" where
  "parsePatterns_loop e [] normalized = Inr normalized"
| "parsePatterns_loop e (p # ps) normalized =
     (if p = [] then parsePatterns_loop e ps normalized
      else if \<not> isValidPattern p then Inl (InvalidPatternError (invalid_pattern_message p))
      else parsePatterns_loop e ps (set_add (normalizePattern e p) normalized))"

text \<open>\<^verbatim>\<open>typeof pattern === 'string' ? pattern.split(/[,\s]+/) : Array.from(pattern)\<close>\<close>

definition pattern_tokens :: "env \<Rightarrow> pattern_arg \<Rightarrow> string list" where
  "pattern_tokens e pattern =
     (case pattern of PatternString s \<Rightarrow> split_patterns e s | PatternSet ps \<Rightarrow> ps)"

definition parsePatterns :: "env \<Rightarrow> pattern_arg \<Rightarrow> error + string list" where
  "parsePatterns e pattern = parsePatterns_loop e (pattern_tokens e pattern) []"

text \<open>
  \<open>createIngestionQuery\<close>: each \<open>params.x || default\<close> replaces a falsy value (absent, the
  empty string, zero) by the default.
\<close>

definition createIngestionQuery :: "env \<Rightarrow> IngestionQuery \<Rightarrow> IngestionQuery" where
  "createIngestionQuery e params =
     (let qid = (if query_id params = [] then uuidv4 e else query_id params);
          sl = (if slug params = [] then ''query-'' @ qid else slug params)
      in params\<lparr>
           slug := sl,
           query_id := qid,
           qtype := (if qtype params = [] then ''tree'' else qtype params),
           subpath := (if subpath params = [] then ''/'' else subpath params),
           max_file_size :=
             (if max_file_size params = 0 then MAX_FILE_SIZE else max_file_size params)\<rparr>)"

text \<open>Truthiness of an optional \<open>Set<string> | string\<close> argument.\<close>

fun arg_truthy :: "pattern_arg option \<Rightarrow> bool" where
  "arg_truthy None = False"
| "arg_truthy (Some (PatternString s)) = (s \<noteq> [])"
| "arg_truthy (Some (PatternSet ps)) = True"

text \<open>
  \<open>parseQuery\<close> (query_parsing.ts) after the source has been resolved: \<open>query\<close> is what
  \<open>parseRemoteRepo\<close> or \<open>parseLocalDirPath\<close> returned, and \<open>defaults\<close> is
  \<open>DEFAULT_IGNORE_PATTERNS\<close>, a table of utils/ignore_patterns.ts.
\<close>

definition parseQuery ::
  "env \<Rightarrow> string list \<Rightarrow> IngestionQuery \<Rightarrow> nat \<Rightarrow> pattern_arg option \<Rightarrow> pattern_arg option
     \<Rightarrow> error + IngestionQuery" where
  "parseQuery e defaults query max_size include_arg ignore_arg =
     (case (if arg_truthy ignore_arg
            then (case parsePatterns e (the ignore_arg) of
                    Inl err \<Rightarrow> Inl err
                  | Inr ps \<Rightarrow> Inr (fold set_add ps (new_Set defaults)))
            else Inr (new_Set defaults)) of
        Inl err \<Rightarrow> Inl err
      | Inr ignore_patterns_set \<Rightarrow>
          (if arg_truthy include_arg
           then (case parsePatterns e (the include_arg) of
                   Inl err \<Rightarrow> Inl err
                 | Inr parsed_include \<Rightarrow>
                     Inr (createIngestionQuery e (query\<lparr>
                            max_file_size := max_size,
                            ignore_patterns := fold set_delete parsed_include ignore_patterns_set,
                            include_patterns := Some parsed_include\<rparr>)))
           else Inr (createIngestionQuery e (query\<lparr>
                       max_file_size := max_size,
                       ignore_patterns := ignore_patterns_set,
                       include_patterns := None\<rparr>))))"

section \<open>Pattern matching (utils/ingestion_utils.ts)\<close>

definition backslash :: char where
  "backslash = CHR 0x5C"

definition nl :: string where
  "nl = [CHR 0x0A]"

definition triple_quote :: string where
  "triple_quote = replicate 3 (CHR 0x22)"

text \<open>
  \<open>matchPattern\<close>: three successive replacements build the source of a regular expression,
  which \<open>new RegExp\<close> compiles (\<open>None\<close>: it throws a \<open>SyntaxError\<close>) and tests.
\<close>

definition matchPattern :: "env \<Rightarrow> string \<Rightarrow> string \<Rightarrow> bool option" where
  "matchPattern e s pattern =
     (let regExpPattern =
            replace_char CHR ''?'' ''.''
              (replace_char CHR ''*'' ''.*''
                 (replace_char CHR ''.'' [backslash, CHR ''.''] pattern))
      in regexp_test e (''^'' @ regExpPattern @ ''$'') s)"

text \<open>The loops return at the first match; an exception ends them in the \<open>catch\<close> branch.\<close>

fun shouldInclude_loop :: "env \<Rightarrow> string \<Rightarrow> string list \<Rightarrow> bool" where
  "shouldInclude_loop e relStr [] = False"
| "shouldInclude_loop e relStr (pattern # rest) =
     (case matchPattern e relStr pattern of
        None \<Rightarrow> False
      | Some True \<Rightarrow> True
      | Some False \<Rightarrow> shouldInclude_loop e relStr rest)"

definition shouldInclude :: "env \<Rightarrow> string \<Rightarrow> string \<Rightarrow> string list \<Rightarrow> bool" where
  "shouldInclude e filePath basePath includePatterns =
     (let relativePath = path_relative e basePath filePath
      in if startsWith relativePath ''..'' \<or> path_isAbsolute e relativePath then False
         else (let isDirectory = False;
                   relStr = (if isDirectory then relativePath @ ''/'' else relativePath)
               in shouldInclude_loop e relStr includePatterns))"

fun shouldExclude_loop :: "env \<Rightarrow> string \<Rightarrow> string list \<Rightarrow> bool" where
  "shouldExclude_loop e relativePath [] = False"
| "shouldExclude_loop e relativePath (pattern # rest) =
     (if pattern \<noteq> [] then
        (case matchPattern e relativePath pattern of
           None \<Rightarrow> True
         | Some True \<Rightarrow> True
         | Some False \<Rightarrow> shouldExclude_loop e relativePath rest)
      else shouldExclude_loop e relativePath rest)"

definition shouldExclude :: "env \<Rightarrow> string \<Rightarrow> string \<Rightarrow> string list \<Rightarrow> bool" where
  "shouldExclude e filePath basePath ignorePatterns =
     (let relativePath = path_relative e basePath filePath
      in if startsWith relativePath ''..'' \<or> path_isAbsolute e relativePath then True
         else shouldExclude_loop e relativePath ignorePatterns)"

section \<open>Content decoding\<close>

definition getEncodingList :: "env \<Rightarrow> string list" where
  "getEncodingList e =
     [''utf-8'', ''utf-16'', ''utf-16le'', ''utf-8-sig'', ''latin1'']
       @ (if os_platform e = ''win32'' then [''cp1252'', ''iso-8859-1''] else [])"

fun isTextFile_loop :: "env \<Rightarrow> string \<Rightarrow> string list \<Rightarrow> bool" where
  "isTextFile_loop e filePath [] = False"
| "isTextFile_loop e filePath (encoding # rest) =
     (case fs_readFileSync e filePath encoding of
        Inr decoded \<Rightarrow> True
      | Inl err \<Rightarrow>
          (if str_includes (exn_message err) ''encoding''
           then isTextFile_loop e filePath rest
           else False))"

text \<open>\<open>isTextFile\<close> (utils/textfile_checker_utils.ts); \<open>fs_readChunk\<close> is the leading sample.\<close>

definition isTextFile :: "env \<Rightarrow> string \<Rightarrow> bool" where
  "isTextFile e filePath =
     (case fs_readChunk e filePath of
        None \<Rightarrow> False
      | Some chunk \<Rightarrow>
          (if chunk = [] then True
           else if 0x00 \<in> set chunk \<or> 0xFF \<in> set chunk then False
           else isTextFile_loop e filePath (getEncodingList e)))"

section \<open>Notebooks (utils/notebook_utils.ts)\<close>

definition text_lines :: "text_field \<Rightarrow> string list" where
  "text_lines t = (case t of TextOne s \<Rightarrow> [s] | TextMany ls \<Rightarrow> ls)"

definition extractOutput :: "nb_output \<Rightarrow> js_exn + string list" where
  "extractOutput out =
     (if output_type out = ''stream'' then Inr (text_lines (output_text out))
      else if output_type out = ''execute_result'' \<or> output_type out = ''display_data''
      then Inr (text_lines (data_text_plain out))
      else if output_type out = ''error''
      then Inr [''Error: '' @ ename out @ '': '' @ evalue out]
      else Inl (Exn ''Error'' (''Unknown output type: '' @ output_type out)))"

fun extractOutputs :: "nb_output list \<Rightarrow> js_exn + string list" where
  "extractOutputs [] = Inr []"
| "extractOutputs (out # rest) =
     (case extractOutput out of
        Inl err \<Rightarrow> Inl err
      | Inr ls \<Rightarrow> (case extractOutputs rest of Inl err \<Rightarrow> Inl err | Inr others \<Rightarrow> Inr (ls @ others)))"

definition processCell :: "nb_cell \<Rightarrow> bool \<Rightarrow> js_exn + string option" where
  "processCell cell includeOutput =
     (if cell_type cell \<notin> {''markdown'', ''code'', ''raw''}
      then Inl (Exn ''Error'' (''Unknown cell type: '' @ cell_type cell))
      else
        (let cellStr = (case source cell of SourceLines ls \<Rightarrow> concat ls | SourceString s \<Rightarrow> s)
         in if cellStr = [] then Inr None
            else if cell_type cell = ''markdown'' \<or> cell_type cell = ''raw''
            then Inr (Some (triple_quote @ nl @ cellStr @ nl @ triple_quote))
            else if includeOutput \<and> outputs cell \<noteq> []
            then (case extractOutputs (outputs cell) of
                    Inl err \<Rightarrow> Inl err
                  | Inr outputLines \<Rightarrow>
                      (let formattedOutputLines =
                             map (\<lambda>line. if \<not> endsWith line nl then line @ nl else line) outputLines
                       in Inr (Some (cellStr @ nl @ ''# Output:'' @ nl @ ''#   ''
                                       @ js_join (nl @ ''#   '') formattedOutputLines))))
            else Inr (Some cellStr)))"

fun processCells :: "nb_cell list \<Rightarrow> bool \<Rightarrow> js_exn + string list" where
  "processCells [] includeOutput = Inr []"
| "processCells (cell # rest) includeOutput =
     (case processCell cell includeOutput of
        Inl err \<Rightarrow> Inl err
      | Inr cellStr \<Rightarrow>
          (case processCells rest includeOutput of
             Inl err \<Rightarrow> Inl err
           | Inr result \<Rightarrow> Inr ((case cellStr of None \<Rightarrow> [] | Some s \<Rightarrow> [s]) @ result)))"

text \<open>
  \<open>processNotebook\<close>: a \<open>SyntaxError\<close> of \<open>JSON.parse\<close> is rethrown as an
  \<open>InvalidNotebookError\<close>, every other exception as it is.
\<close>

definition processNotebook :: "env \<Rightarrow> string \<Rightarrow> bool \<Rightarrow> js_exn + string" where
  "processNotebook e filePath includeOutput =
     (case fs_readFileSync e filePath ''utf-8'' of
        Inl err \<Rightarrow> Inl err
      | Inr fileContent \<Rightarrow>
          (case JSON_parse e fileContent of
             None \<Rightarrow> Inl (Exn ''InvalidNotebookError'' (''Invalid JSON in notebook: '' @ filePath))
           | Some nb \<Rightarrow>
               (let cs = (case worksheets nb of Some wss \<Rightarrow> concat wss | None \<Rightarrow> cells nb)
                in case processCells cs includeOutput of
                     Inl err \<Rightarrow> Inl err
                   | Inr result \<Rightarrow>
                       Inr (js_join (nl @ nl)
                              (''# Jupyter notebook converted to Python script.'' # result) @ nl))))"

section \<open>Nodes (types/filesystem_schema.ts)\<close>

fun content_loop :: "env \<Rightarrow> string \<Rightarrow> string list \<Rightarrow> string" where
  "content_loop e p [] = ''Error: Unable to decode file with available encodings''"
| "content_loop e p (encoding # rest) =
     (case fs_readFileSync e p encoding of
        Inr decoded \<Rightarrow> decoded
      | Inl err \<Rightarrow>
          (if str_includes (exn_message err) ''decode'' \<or> str_includes (exn_message err) ''encoding''
           then content_loop e p rest
           else ''Error reading file: '' @ exn_toString err))"

text \<open>The body of the \<open>content\<close> getter below its directory check.\<close>

definition file_content :: "env \<Rightarrow> string \<Rightarrow> string" where
  "file_content e p =
     (if \<not> isTextFile e p then ''[Non-text file]''
      else if path_extname e p = ''.ipynb''
      then (case processNotebook e p True of
              Inr script \<Rightarrow> script
            | Inl exc \<Rightarrow> ''Error processing notebook: '' @ exn_toString exc)
      else content_loop e p (getEncodingList e))"

definition content :: "env \<Rightarrow> FileSystemNode \<Rightarrow> error + string" where
  "content e node =
     (if ntype node = DIRECTORY then Inl ContentOfDirectory
      else Inr (file_content e (path node)))"

definition sortKey :: "env \<Rightarrow> FileSystemNode \<Rightarrow> int \<times> string" where
  "sortKey e child =
     (let nm = toLowerCase e (name child)
      in if ntype child = FILE
         then (if nm = ''readme.md'' then (0, nm)
               else (if startsWith nm ''.'' then 2 else 1, nm))
         else (if startsWith nm ''.'' then 4 else 3, nm))"

definition compareChildren :: "env \<Rightarrow> FileSystemNode \<Rightarrow> FileSystemNode \<Rightarrow> int" where
  "compareChildren e a b =
     (let (orderA, nameA) = sortKey e a;
          (orderB, nameB) = sortKey e b
      in if orderA \<noteq> orderB then orderA - orderB
         else localeCompare e nameA nameB)"

text \<open>
  \<open>Array.prototype.sort\<close> with a comparator is a stable sort: an element is placed before
  the first one it does not compare greater than, equal elements keeping their order.
\<close>

fun insert_by :: "('a \<Rightarrow> 'a \<Rightarrow> int) \<Rightarrow> 'a \<Rightarrow> 'a list \<Rightarrow> 'a list" where
  "insert_by cmp x [] = [x]"
| "insert_by cmp x (y # ys) = (if cmp x y \<le> 0 then x # y # ys else y # insert_by cmp x ys)"

definition array_sort :: "('a \<Rightarrow> 'a \<Rightarrow> int) \<Rightarrow> 'a list \<Rightarrow> 'a list" where
  "array_sort cmp xs = foldr (insert_by cmp) xs []"

definition with_children :: "FileSystemNode \<Rightarrow> FileSystemNode list \<Rightarrow> FileSystemNode" where
  "with_children node ch =
     FileSystemNode (name node) (ntype node) (path_str node) (path node)
       (nsize node) (file_count node) (dir_count node) (depth node) ch"

definition sortChildren :: "env \<Rightarrow> FileSystemNode \<Rightarrow> error + FileSystemNode" where
  "sortChildren e node =
     (if ntype node \<noteq> DIRECTORY then Inl SortNonDirectory
      else Inr (with_children node (array_sort (compareChildren e) (children node))))"

section \<open>Traversal (ingestion.ts)\<close>

text \<open>\<open>isSafeSymlink\<close> (utils/path_utils.ts); every exception means unsafe.\<close>

definition isSafeSymlink :: "env \<Rightarrow> string \<Rightarrow> string \<Rightarrow> bool" where
  "isSafeSymlink e symlink_path base_path =
     (if os_platform e = ''win32'' \<and> fs_lstat_isSymbolicLink e symlink_path \<noteq> Some True
      then False
      else (case fs_realpath e symlink_path of
              None \<Rightarrow> False
            | Some target_path \<Rightarrow>
                (case fs_realpath e base_path of
                   None \<Rightarrow> False
                 | Some base_resolved \<Rightarrow>
                     (let relative = path_relative e base_resolved target_path
                      in \<not> startsWith relative ''..'' \<and> \<not> path_isAbsolute e relative))))"

definition limitExceeded :: "FileSystemStats \<Rightarrow> nat \<Rightarrow> bool" where
  "limitExceeded stats d =
     (if d > MAX_DIRECTORY_DEPTH then True
      else if total_files stats \<ge> MAX_FILES then True
      else if total_size stats \<ge> MAX_TOTAL_SIZE_BYTES then True
      else False)"

definition processFile ::
  "env \<Rightarrow> string \<Rightarrow> FileSystemNode \<Rightarrow> FileSystemStats \<Rightarrow> string
     \<Rightarrow> error + FileSystemNode \<times> FileSystemStats" where
  "processFile e filePath parent_node stats lpath =
     (case fs_stat e filePath of
        None \<Rightarrow> Inl (FsRejected filePath)
      | Some fileStats \<Rightarrow>
          (let file_size = st_size fileStats
           in if total_size stats + file_size > MAX_TOTAL_SIZE_BYTES
              then Inr (parent_node, stats)
              else
                (let stats' = stats\<lparr>total_files := total_files stats + 1,
                                     total_size := total_size stats + file_size\<rparr>
                 in if total_files stats' > MAX_FILES
                    then Inr (parent_node, stats')
                    else
                      (let child = FileSystemNode (path_basename e filePath) FILE
                                     (path_relative e lpath filePath) filePath
                                     file_size 1 0 (depth parent_node + 1) []
                       in Inr (FileSystemNode (name parent_node) (ntype parent_node)
                                 (path_str parent_node) (path parent_node)
                                 (nsize parent_node + file_size) (file_count parent_node + 1)
                                 (dir_count parent_node) (depth parent_node)
                                 (children parent_node @ [child]),
                               stats')))))"

text \<open>
  The body of the loop of \<open>processNode\<close> from its first line to the \<open>fs.stat\<close> of the
  target: the entry is skipped (\<open>continue\<close>), the call throws, or the target is a file or a
  directory to process. A directory carries the \<open>symlink_path\<close> it was reached through.
\<close>

datatype entry_outcome =
    Skip FileSystemStats
  | Throw error
  | AFile string FileSystemStats
  | ADirectory string "string option" FileSystemStats

definition resolveEntry ::
  "env \<Rightarrow> IngestionQuery \<Rightarrow> FileSystemNode \<Rightarrow> FileSystemStats \<Rightarrow> Dirent \<Rightarrow> entry_outcome" where
  "resolveEntry e query node stats entry =
     (let entryPath = path_join e [path node, d_name entry]
      in if d_isSymbolicLink entry \<and> \<not> isSafeSymlink e entryPath (local_path query)
         then Skip stats
         else
           (case (if d_isSymbolicLink entry then fs_realpath e entryPath else Some entryPath) of
              None \<Rightarrow> Throw (FsRejected entryPath)
            | Some targetPath \<Rightarrow>
                (if targetPath \<in> visited stats then Skip stats
                 else
                   (let stats' = stats\<lparr>visited := insert targetPath (visited stats)\<rparr>
                    in if shouldExclude e targetPath (local_path query) (ignore_patterns query)
                       then Skip stats'
                       else if include_patterns query \<noteq> None
                               \<and> \<not> shouldInclude e targetPath (local_path query)
                                     (the (include_patterns query))
                       then Skip stats'
                       else
                         (case fs_stat e targetPath of
                            None \<Rightarrow> Throw (FsRejected targetPath)
                          | Some targetStats \<Rightarrow>
                              (if st_kind targetStats = IsFile then AFile targetPath stats'
                               else if st_kind targetStats = IsDirectory
                               then ADirectory targetPath
                                      (if d_isSymbolicLink entry then Some entryPath else None)
                                      stats'
                               else Throw (NeitherFileNorDirectory targetPath)))))))"

text \<open>The child directory node, renamed after the symbolic link when there is one.\<close>

definition child_directory_node ::
  "env \<Rightarrow> IngestionQuery \<Rightarrow> FileSystemNode \<Rightarrow> string \<Rightarrow> string option \<Rightarrow> FileSystemNode" where
  "child_directory_node e query node targetPath symlink_path =
     (case symlink_path of
        Some sp \<Rightarrow>
          (if sp \<noteq> []
           then FileSystemNode (path_basename e sp) DIRECTORY sp targetPath 0 0 0 (depth node + 1) []
           else FileSystemNode (path_basename e targetPath) DIRECTORY
                  (path_relative e (local_path query) targetPath) targetPath 0 0 0 (depth node + 1) [])
      | None \<Rightarrow>
          FileSystemNode (path_basename e targetPath) DIRECTORY
            (path_relative e (local_path query) targetPath) targetPath 0 0 0 (depth node + 1) [])"

text \<open>The parent after \<open>children.push\<close> and the three \<open>+=\<close> on its totals.\<close>

definition add_directory :: "FileSystemNode \<Rightarrow> FileSystemNode \<Rightarrow> FileSystemNode" where
  "add_directory node child =
     FileSystemNode (name node) (ntype node) (path_str node) (path node)
       (nsize node + nsize child) (file_count node + file_count child)
       (dir_count node + (1 + dir_count child)) (depth node)
       (children node @ [child])"

function processNode ::
  "env \<Rightarrow> IngestionQuery \<Rightarrow> FileSystemNode \<Rightarrow> FileSystemStats
     \<Rightarrow> error + FileSystemNode \<times> FileSystemStats"
and processEntries ::
  "env \<Rightarrow> IngestionQuery \<Rightarrow> FileSystemNode \<Rightarrow> FileSystemStats \<Rightarrow> Dirent list
     \<Rightarrow> error + FileSystemNode \<times> FileSystemStats" where
  "processNode e query node stats =
     (if limitExceeded stats (depth node) then Inr (node, stats)
      else
        (case fs_readdir e (path node) of
           None \<Rightarrow> Inl (FsRejected (path node))
         | Some entries \<Rightarrow>
             (case processEntries e query node stats entries of
                Inl err \<Rightarrow> Inl err
              | Inr (node', stats') \<Rightarrow>
                  (case sortChildren e node' of
                     Inl err \<Rightarrow> Inl err
                   | Inr sorted_node \<Rightarrow> Inr (sorted_node, stats')))))"
| "processEntries e query node stats [] = Inr (node, stats)"
| "processEntries e query node stats (entry # rest) =
     (case resolveEntry e query node stats entry of
        Skip stats' \<Rightarrow> processEntries e query node stats' rest
      | Throw err \<Rightarrow> Inl err
      | AFile targetPath stats' \<Rightarrow>
          (case processFile e targetPath node stats' (local_path query) of
             Inl err \<Rightarrow> Inl err
           | Inr (node', stats'') \<Rightarrow>
               processEntries e query node' stats'' rest)
      | ADirectory targetPath symlink_path stats' \<Rightarrow>
          (case processNode e query
                  (child_directory_node e query node targetPath symlink_path) stats' of
             Inl err \<Rightarrow> Inl err
           | Inr (child, stats'') \<Rightarrow>
               processEntries e query (add_directory node child) stats'' rest))"
  by pat_completeness auto
termination
  by (relation "measures
        [\<lambda>x. case x of
           Inl (e, q, node, stats) \<Rightarrow>
             (if depth node > MAX_DIRECTORY_DEPTH then 0
              else 2 * (MAX_DIRECTORY_DEPTH + 1 - depth node) + 2)
         | Inr (e, q, node, stats, entries) \<Rightarrow>
             2 * (MAX_DIRECTORY_DEPTH + 1 - depth node) + 1,
         \<lambda>x. case x of
           Inl (e, q, node, stats) \<Rightarrow> 0
         | Inr (e, q, node, stats, entries) \<Rightarrow> length entries]")
    (auto simp: limitExceeded_def add_directory_def child_directory_node_def processFile_def
                Let_def
          split: if_splits option.splits)

declare processNode.simps [simp del]

text \<open>
  \<open>applyGitingestFile\<close>: the query is mutated in the source and returned here. A value is
  falsy when the parser reports it so or when it is the empty string.
\<close>

definition toml_strings :: "toml_value list \<Rightarrow> string list" where
  "toml_strings patterns =
     concat (map (\<lambda>v. case v of TomlString s \<Rightarrow> [s] | TomlOther \<Rightarrow> []) patterns)"

definition add_ignore_patterns :: "toml_value list \<Rightarrow> IngestionQuery \<Rightarrow> IngestionQuery" where
  "add_ignore_patterns patterns query =
     (let validPatterns = new_Set (toml_strings patterns)
      in if validPatterns = [] then query
         else query\<lparr>ignore_patterns := fold set_add validPatterns (ignore_patterns query)\<rparr>)"

definition applyGitingestFile :: "env \<Rightarrow> string \<Rightarrow> IngestionQuery \<Rightarrow> IngestionQuery" where
  "applyGitingestFile e filePath query =
     (let gitingestPath = path_join e [filePath, ''.gitingest'']
      in if \<not> fs_access e gitingestPath then query
         else (case gitingest_file e gitingestPath of
                 TomlThrows \<Rightarrow> query
               | IgnoreFalsy \<Rightarrow> query
               | IgnoreOne v \<Rightarrow>
                   (if v = TomlString [] then query else add_ignore_patterns [v] query)
               | IgnoreMany vs \<Rightarrow> add_ignore_patterns vs query))"

section \<open>Formatting (output_formatters.ts)\<close>

definition truthy :: "string option \<Rightarrow> bool" where
  "truthy v = (case v of None \<Rightarrow> False | Some s \<Rightarrow> s \<noteq> [])"

definition template :: "string option \<Rightarrow> string" where
  "template v = (case v of None \<Rightarrow> ''undefined'' | Some s \<Rightarrow> s)"

definition createSummaryPrefix :: "env \<Rightarrow> IngestionQuery \<Rightarrow> bool \<Rightarrow> string" where
  "createSummaryPrefix e query single_file =
     (let parts1 = (if truthy (user_name query)
                    then [''Repository: '' @ template (user_name query) @ ''/''
                            @ template (repo_name query)]
                    else [''Directory: '' @ slug query]);
          parts2 = (if truthy (commit query) then [''Commit: '' @ template (commit query)]
                    else if truthy (branch query)
                            \<and> toLowerCase e (template (branch query)) \<notin> {''main'', ''master''}
                    then [''Branch: '' @ template (branch query)]
                    else []);
          parts3 = (if subpath query \<noteq> ''/'' \<and> \<not> single_file
                    then [''Subpath: '' @ subpath query] else [])
      in js_join nl (parts1 @ parts2 @ parts3) @ nl)"

text \<open>
  In a \<open>FILE\<close> node the getter \<open>contentString\<close> is \<open>file_content\<close> of the node's path.
\<close>

fun gatherFileContents :: "env \<Rightarrow> FileSystemNode \<Rightarrow> string" where
  "gatherFileContents e (FileSystemNode nm ty ps p sz fc dc d ch) =
     (if ty = FILE
      then (let ext = last (split_char CHR ''.'' nm)
            in ''### '' @ ps @ nl @ ''```'' @ ext @ nl @ file_content e p @ nl @ ''```'' @ nl)
      else js_join nl (map (gatherFileContents e) ch))"

text \<open>The box-drawing prefixes, in UTF-8.\<close>

definition last_branch :: string where
  "last_branch = [CHR 0xE2, CHR 0x94, CHR 0x94, CHR 0xE2, CHR 0x94, CHR 0x80,
                  CHR 0xE2, CHR 0x94, CHR 0x80, CHR '' '']"

definition mid_branch :: string where
  "mid_branch = [CHR 0xE2, CHR 0x94, CHR 0x9C, CHR 0xE2, CHR 0x94, CHR 0x80,
                 CHR 0xE2, CHR 0x94, CHR 0x80, CHR '' '']"

definition vertical_bar :: string where
  "vertical_bar = [CHR 0xE2, CHR 0x94, CHR 0x82, CHR '' '', CHR '' '', CHR '' '']"

text \<open>
  \<open>createTreeStructure\<close> gives a node without a name the slug of the query; the renamed
  node is returned with the text.
\<close>

fun createTreeStructure ::
  "IngestionQuery \<Rightarrow> FileSystemNode \<Rightarrow> string \<Rightarrow> bool \<Rightarrow> string \<times> FileSystemNode"
and createTreeChildren ::
  "IngestionQuery \<Rightarrow> FileSystemNode list \<Rightarrow> string \<Rightarrow> string \<times> FileSystemNode list" where
  "createTreeStructure query (FileSystemNode nm ty ps p sz fc dc d ch) prefix is_last =
     (let nm' = (if nm = [] then slug query else nm);
          current_prefix = (if is_last then last_branch else mid_branch);
          display_name = (if ty = DIRECTORY then nm' @ ''/'' else nm');
          tree_str = prefix @ current_prefix @ display_name @ nl
      in if ty = DIRECTORY \<and> ch \<noteq> []
         then (let new_prefix = prefix @ (if is_last then ''    '' else vertical_bar);
                   (sub, ch') = createTreeChildren query ch new_prefix
               in (tree_str @ sub, FileSystemNode nm' ty ps p sz fc dc d ch'))
         else (tree_str, FileSystemNode nm' ty ps p sz fc dc d ch))"
| "createTreeChildren query [] prefix = ([], [])"
| "createTreeChildren query (child # rest) prefix =
     (let (s1, child') = createTreeStructure query child prefix (rest = []);
          (s2, rest') = createTreeChildren query rest prefix
      in (s1 @ s2, child' # rest'))"

definition formatTokenCount :: "env \<Rightarrow> string \<Rightarrow> string" where
  "formatTokenCount e txt =
     (let total_tokens = (js_length txt + 3) div 4
      in if total_tokens \<ge> 1000000 then toFixed1 e total_tokens 1000000 @ ''M''
         else if total_tokens \<ge> 1000 then toFixed1 e total_tokens 1000 @ ''k''
         else show_nat total_tokens)"

definition formatNode ::
  "env \<Rightarrow> FileSystemNode \<Rightarrow> IngestionQuery \<Rightarrow> string \<times> string \<times> string" where
  "formatNode e node query =
     (let is_single_file = (ntype node = FILE);
          prefix = createSummaryPrefix e query is_single_file;
          summary =
            (if ntype node = DIRECTORY
             then prefix @ ''Files analyzed: '' @ show_nat (file_count node) @ nl
             else prefix @ ''File: '' @ name node @ nl
                    @ ''Lines: ''
                    @ toLocaleString e (length (split_char CHR 0x0A (file_content e (path node))))
                    @ nl);
          (tree_body, node') = createTreeStructure query node [] True;
          tree = ''Directory structure:'' @ nl @ tree_body;
          contents = gatherFileContents e node';
          token_estimate = formatTokenCount e (tree @ contents)
      in ((if token_estimate \<noteq> [] then summary @ nl @ ''Estimated tokens: '' @ token_estimate
           else summary),
          tree, contents))"

section \<open>The entry point\<close>

text \<open>
  The body of \<open>ingestQuery\<close> below its call of \<open>applyGitingestFile\<close>: the digest of the
  target, or the failure.
\<close>

definition ingestTarget ::
  "env \<Rightarrow> string \<Rightarrow> IngestionQuery \<Rightarrow> error + string \<times> string \<times> string" where
  "ingestTarget e targetPath query =
     (if \<not> fs_access e targetPath then Inl (CannotBeFound (slug query))
      else
        (case fs_stat e targetPath of
           None \<Rightarrow> Inl (FsRejected targetPath)
         | Some stats \<Rightarrow>
             (if qtype query = ''blob'' \<or> st_kind stats = IsFile
              then
                (if st_kind stats \<noteq> IsFile then Inl (IsNotAFile targetPath)
                 else
                   (let file_node =
                          FileSystemNode (path_basename e targetPath) FILE
                            (path_relative e (local_path query) targetPath) targetPath
                            (st_size stats) 1 0 0 []
                    in if file_content e (path file_node) = []
                       then Inl (HasNoContent (name file_node))
                       else Inr (formatNode e file_node query)))
              else
                (let root_node =
                       new_FileSystemNode (path_basename e targetPath) DIRECTORY
                         (path_relative e (local_path query) targetPath) targetPath
                 in case processNode e query root_node new_FileSystemStats of
                      Inl err \<Rightarrow> Inl err
                    | Inr (root_node', stats') \<Rightarrow> Inr (formatNode e root_node' query)))))"

text \<open>
  \<open>ingestQuery\<close> returns the query as \<open>applyGitingestFile\<close> left it (the source mutates
  the caller's object), and the digest or the failure.
\<close>

definition ingestQuery ::
  "env \<Rightarrow> IngestionQuery \<Rightarrow> IngestionQuery \<times> (error + string \<times> string \<times> string)" where
  "ingestQuery e query0 =
     (let sub = path_posix_join e (filter (\<lambda>s. s \<noteq> []) (split_char CHR ''/'' (subpath query0)));
          targetPath = path_join e [local_path query0, sub];
          query = applyGitingestFile e targetPath query0
      in (query, ingestTarget e targetPath query))"

section \<open>A concrete environment\<close>

text \<open>
  A POSIX instance of \<open>env\<close> for evaluating the program on examples. Its functions agree
  with Node.js on the inputs the examples give them: ASCII text, absolute paths without
  \<open>.\<close> and \<open>..\<close> segments, and regular expressions made of literal characters, escaped
  punctuation, \<open>.\<close> and \<open>.*\<close>; any other expression is reported as one that does not compile.
\<close>

definition segments :: "string \<Rightarrow> string list" where
  "segments p = filter (\<lambda>s. s \<noteq> [] \<and> s \<noteq> ''.'') (split_char CHR ''/'' p)"

definition posix_join :: "string list \<Rightarrow> string" where
  "posix_join parts =
     (let joined = js_join ''/'' (filter (\<lambda>s. s \<noteq> []) parts);
          segs = segments joined
      in if startsWith joined ''/'' then ''/'' @ js_join ''/'' segs
         else if segs = [] then ''.''
         else js_join ''/'' segs)"

definition posix_basename :: "string \<Rightarrow> string" where
  "posix_basename p = (case segments p of [] \<Rightarrow> [] | segs \<Rightarrow> last segs)"

fun strip_common :: "string list \<Rightarrow> string list \<Rightarrow> string list \<times> string list" where
  "strip_common (a # as) (b # bs) = (if a = b then strip_common as bs else (a # as, b # bs))"
| "strip_common as bs = (as, bs)"

definition posix_relative :: "string \<Rightarrow> string \<Rightarrow> string" where
  "posix_relative from to =
     (let (up, down) = strip_common (segments from) (segments to)
      in js_join ''/'' (map (\<lambda>_. ''..'') up @ down))"

definition posix_extname :: "string \<Rightarrow> string" where
  "posix_extname p =
     (let parts = split_char CHR ''.'' (posix_basename p)
      in if length parts < 2 \<or> (length parts = 2 \<and> hd parts = []) then []
         else ''.'' @ last parts)"

definition ascii_lower :: "string \<Rightarrow> string" where
  "ascii_lower s =
     map (\<lambda>c. let n = (of_char c :: nat) in if 65 \<le> n \<and> n \<le> 90 then char_of (n + 32) else c) s"

definition ascii_space :: "char \<Rightarrow> bool" where
  "ascii_space c = ((of_char c :: nat) \<in> {9, 10, 11, 12, 13, 32})"

definition ascii_trim :: "string \<Rightarrow> string" where
  "ascii_trim s = rev (dropWhile ascii_space (rev (dropWhile ascii_space s)))"

fun bytes_compare :: "string \<Rightarrow> string \<Rightarrow> int" where
  "bytes_compare [] [] = 0"
| "bytes_compare [] (b # bs) = - 1"
| "bytes_compare (a # as) [] = 1"
| "bytes_compare (a # as) (b # bs) =
     (if (of_char a :: nat) < of_char b then - 1
      else if (of_char b :: nat) < of_char a then 1
      else bytes_compare as bs)"

fun ascii_tokens :: "string \<Rightarrow> string \<Rightarrow> string list" where
  "ascii_tokens acc [] = [rev acc]"
| "ascii_tokens acc (c # cs) =
     (if c = CHR '','' \<or> ascii_space c
      then (if cs \<noteq> [] \<and> (hd cs = CHR '','' \<or> ascii_space (hd cs))
            then ascii_tokens acc cs
            else rev acc # ascii_tokens [] cs)
      else ascii_tokens (c # acc) cs)"

definition round_fixed1 :: "nat \<Rightarrow> nat \<Rightarrow> string" where
  "round_fixed1 n d =
     (let tenths = (20 * n + d) div (2 * d)
      in show_nat (tenths div 10) @ ''.'' @ show_nat (tenths mod 10))"

datatype rx_atom = RxChar char | RxAny

fun rx_parse :: "string \<Rightarrow> (rx_atom \<times> bool) list option" where
  "rx_parse [] = Some []"
| "rx_parse [c] =
     (if c = CHR ''.'' then Some [(RxAny, False)]
      else if c \<in> set ''*+?()[]{}|^$'' \<or> c = backslash then None
      else Some [(RxChar c, False)])"
| "rx_parse (c # d # rest) =
     (if c = backslash
      then (if is_alnum d then None
            else (case rest of
                    [] \<Rightarrow> Some [(RxChar d, False)]
                  | x # rest' \<Rightarrow>
                      (if x = CHR ''*'' then map_option ((#) (RxChar d, True)) (rx_parse rest')
                       else map_option ((#) (RxChar d, False)) (rx_parse rest))))
      else if c \<in> set ''*+?()[]{}|^$'' then None
      else (let a = (if c = CHR ''.'' then RxAny else RxChar c)
            in if d = CHR ''*'' then map_option ((#) (a, True)) (rx_parse rest)
               else map_option ((#) (a, False)) (rx_parse (d # rest))))"

definition rx_atom_ok :: "rx_atom \<Rightarrow> char \<Rightarrow> bool" where
  "rx_atom_ok a c =
     (case a of RxChar d \<Rightarrow> c = d | RxAny \<Rightarrow> (of_char c :: nat) \<noteq> 10 \<and> (of_char c :: nat) \<noteq> 13)"

fun rx_match :: "(rx_atom \<times> bool) list \<Rightarrow> string \<Rightarrow> bool" where
  "rx_match [] s = (s = [])"
| "rx_match ((a, False) # r) [] = False"
| "rx_match ((a, False) # r) (c # cs) = (rx_atom_ok a c \<and> rx_match r cs)"
| "rx_match ((a, True) # r) [] = rx_match r []"
| "rx_match ((a, True) # r) (c # cs) =
     (rx_match r (c # cs) \<or> (rx_atom_ok a c \<and> rx_match ((a, True) # r) cs))"

definition anchored_test :: "string \<Rightarrow> string \<Rightarrow> bool option" where
  "anchored_test src s =
     (if 2 \<le> length src \<and> hd src = CHR ''^'' \<and> last src = CHR ''$''
      then map_option (\<lambda>r. rx_match r s) (rx_parse (butlast (tl src)))
      else None)"

text \<open>
  The file system of \<open>node_posix\<close> is empty; the examples fill it in. Its \<open>JSON.parse\<close>
  rejects every text: no example reads a well-formed notebook.
\<close>

definition node_posix :: env where
  "node_posix = \<lparr>
     os_platform = ''linux'',
     uuidv4 = ''00000000-0000-4000-8000-000000000000'',
     path_join = posix_join,
     path_posix_join = posix_join,
     path_basename = posix_basename,
     path_relative = posix_relative,
     path_isAbsolute = (\<lambda>p. startsWith p ''/''),
     path_extname = posix_extname,
     fs_access = (\<lambda>p. False),
     fs_stat = (\<lambda>p. None),
     fs_lstat_isSymbolicLink = (\<lambda>p. None),
     fs_readdir = (\<lambda>p. None),
     fs_realpath = (\<lambda>p. None),
     fs_readChunk = (\<lambda>p. None),
     fs_readFileSync = (\<lambda>p enc. Inl (Exn ''Error'' (''ENOENT: no such file or directory, open '' @ p))),
     JSON_parse = (\<lambda>s. None),
     gitingest_file = (\<lambda>p. TomlThrows),
     regexp_test = anchored_test,
     toLowerCase = ascii_lower,
     trim = ascii_trim,
     localeCompare = bytes_compare,
     toLocaleString = show_nat,
     toFixed1 = round_fixed1,
     split_patterns = ascii_tokens []\<rparr>"

text \<open>
  A file system given by its directories (path and listing) and its regular files (path
  and text): every file is readable as UTF-8 text, nothing is a symbolic link.
\<close>

definition file_bytes :: "string \<Rightarrow> 8 word list" where
  "file_bytes s = map (\<lambda>c. of_nat (of_char c)) (take 1024 s)"

definition with_files ::
  "(string \<times> string list) list \<Rightarrow> (string \<times> string) list \<Rightarrow> env \<Rightarrow> env" where
  "with_files dirs files e = e\<lparr>
     fs_access := (\<lambda>p. p \<in> set (map fst dirs) \<or> p \<in> set (map fst files)),
     fs_stat := (\<lambda>p. case map_of files p of
                       Some s \<Rightarrow> Some \<lparr>st_kind = IsFile, st_size = length s\<rparr>
                     | None \<Rightarrow> (case map_of dirs p of
                                  Some l \<Rightarrow> Some \<lparr>st_kind = IsDirectory, st_size = 4096\<rparr>
                                | None \<Rightarrow> None)),
     fs_readdir := (\<lambda>p. map_option (map (\<lambda>n. \<lparr>d_name = n, d_isSymbolicLink = False\<rparr>))
                          (map_of dirs p)),
     fs_realpath := (\<lambda>p. if p \<in> set (map fst dirs) \<or> p \<in> set (map fst files)
                          then Some p else None),
     fs_readChunk := (\<lambda>p. map_option file_bytes (map_of files p)),
     fs_readFileSync := (\<lambda>p enc. case map_of files p of
                                   Some s \<Rightarrow> Inr s
                                 | None \<Rightarrow> fs_readFileSync e p enc)\<rparr>"

definition local_query :: "string \<Rightarrow> IngestionQuery" where
  "local_query dir = \<lparr>
     user_name = None, repo_name = None, local_path = dir, url = None,
     slug = posix_basename dir, query_id = ''q1'', subpath = ''/'', qtype = ''tree'',
     branch = None, commit = None, max_file_size = MAX_FILE_SIZE,
     ignore_patterns = [], include_patterns = None\<rparr>"

text \<open>
  The example of the specification: a.md (\<open># hi\<close>) and the directory sub with b.py
  (\<open>print(1)\<close>), under /repo.
\<close>

definition example_env :: env where
  "example_env =
     with_files [(''/repo'', [''a.md'', ''sub'']), (''/repo/sub'', [''b.py''])]
       [(''/repo/a.md'', ''# hi''), (''/repo/sub/b.py'', ''print(1)'')] node_posix"

definition example_tree :: FileSystemNode where
  "example_tree =
     FileSystemNode ''repo'' DIRECTORY [] ''/repo'' 12 2 1 0
       [FileSystemNode ''a.md'' FILE ''a.md'' ''/repo/a.md'' 4 1 0 1 [],
        FileSystemNode ''sub'' DIRECTORY ''sub'' ''/repo/sub'' 8 1 0 1
          [FileSystemNode ''b.py'' FILE ''sub/b.py'' ''/repo/sub/b.py'' 8 1 0 2 []]]"

definition example_stats :: FileSystemStats where
  "example_stats =
     \<lparr>visited = {''/repo/a.md'', ''/repo/sub'', ''/repo/sub/b.py''},
      total_files = 2, total_size = 12\<rparr>"

section \<open>Plain files\<close>

text \<open>
  The entry \<open>d\<close> of the directory \<open>dir\<close> is a regular file of \<open>sz\<close> bytes, not a symbolic
  link, that the patterns of the query let through.
\<close>

definition plain_file :: "env \<Rightarrow> IngestionQuery \<Rightarrow> string \<Rightarrow> Dirent \<Rightarrow> nat \<Rightarrow> bool" where
  "plain_file e q dir d sz =
     (\<not> d_isSymbolicLink d
      \<and> \<not> shouldExclude e (path_join e [dir, d_name d]) (local_path q) (ignore_patterns q)
      \<and> (case include_patterns q of
            None \<Rightarrow> True
          | Some ps \<Rightarrow> shouldInclude e (path_join e [dir, d_name d]) (local_path q) ps)
      \<and> fs_stat e (path_join e [dir, d_name d]) = Some \<lparr>st_kind = IsFile, st_size = sz\<rparr>)"

text \<open>The \<open>FILE\<close> node that \<open>processFile\<close> appends to \<open>parent\<close> for the file at \<open>p\<close>.\<close>

definition file_node :: "env \<Rightarrow> string \<Rightarrow> string \<Rightarrow> nat \<Rightarrow> FileSystemNode \<Rightarrow> FileSystemNode" where
  "file_node e lpath p sz parent =
     FileSystemNode (path_basename e p) FILE (path_relative e lpath p) p sz 1 0
       (depth parent + 1) []"

definition with_file :: "FileSystemNode \<Rightarrow> FileSystemNode \<Rightarrow> FileSystemNode" where
  "with_file parent child =
     FileSystemNode (name parent) (ntype parent) (path_str parent) (path parent)
       (nsize parent + nsize child) (file_count parent + 1) (dir_count parent) (depth parent)
       (children parent @ [child])"

text \<open>
  A directory /repo listing A (3 MB) before B (1 MB), for a traversal that has 2 MB of its
  total-size budget left.
\<close>

definition budget_env :: env where
  "budget_env = node_posix\<lparr>
     fs_readdir := (\<lambda>p. if p = ''/repo''
                         then Some [\<lparr>d_name = ''A'', d_isSymbolicLink = False\<rparr>,
                                    \<lparr>d_name = ''B'', d_isSymbolicLink = False\<rparr>]
                         else None),
     fs_stat := (\<lambda>p. if p = ''/repo/A'' then Some \<lparr>st_kind = IsFile, st_size = 3 * 1024 * 1024\<rparr>
                      else if p = ''/repo/B'' then Some \<lparr>st_kind = IsFile, st_size = 1024 * 1024\<rparr>
                      else if p = ''/repo'' then Some \<lparr>st_kind = IsDirectory, st_size = 4096\<rparr>
                      else None)\<rparr>"

definition budget_stats :: FileSystemStats where
  "budget_stats = \<lparr>visited = {}, total_files = 7, total_size = 498 * 1024 * 1024\<rparr>"

text \<open>A flat directory /flat of \<open>MAX_FILES + 5\<close> one-byte files named f, ff, fff, ...\<close>

definition flat_entries :: "Dirent list" where
  "flat_entries =
     map (\<lambda>i. \<lparr>d_name = replicate (Suc i) CHR ''f'', d_isSymbolicLink = False\<rparr>)
       [0..<MAX_FILES + 5]"

definition flat_env :: env where
  "flat_env = node_posix\<lparr>
     fs_access := (\<lambda>p. p = ''/flat'' \<or> startsWith p ''/flat/''),
     fs_stat := (\<lambda>p. if p = ''/flat'' then Some \<lparr>st_kind = IsDirectory, st_size = 4096\<rparr>
                      else if startsWith p ''/flat/'' then Some \<lparr>st_kind = IsFile, st_size = 1\<rparr>
                      else None),
     fs_readdir := (\<lambda>p. if p = ''/flat'' then Some flat_entries else None)\<rparr>"

text \<open>A single notebook file whose text is not JSON, requested as the only resource.\<close>

definition notebook_env :: env where
  "notebook_env = with_files [] [(''/repo/nb.ipynb'', ''{not json'')] node_posix"

definition notebook_query :: IngestionQuery where
  "notebook_query = (local_query ''/repo'')\<lparr>subpath := ''/nb.ipynb'', qtype := ''blob''\<rparr>"

definition notebook_node :: FileSystemNode where
  "notebook_node = FileSystemNode ''nb.ipynb'' FILE ''nb.ipynb'' ''/repo/nb.ipynb'' 9 1 0 0 []"

definition notebook_error_text :: "string \<Rightarrow> string" where
  "notebook_error_text p =
     ''Error processing notebook: InvalidNotebookError: Invalid JSON in notebook: '' @ p"

section \<open>The exclusion test as the specification words it\<close>

text \<open>
  Glob matching in the specification's words: \<open>*\<close> matches any run of characters,
  separators included, \<open>?\<close> exactly one character, and the whole path has to match.
\<close>

fun glob_match :: "string \<Rightarrow> string \<Rightarrow> bool" where
  "glob_match [] s = (s = [])"
| "glob_match (p # ps) [] = (p = CHR ''*'' \<and> glob_match ps [])"
| "glob_match (p # ps) (c # cs) =
     (if p = CHR ''*'' then glob_match ps (c # cs) \<or> glob_match (p # ps) cs
      else (p = CHR ''?'' \<or> p = c) \<and> glob_match ps cs)"

text \<open>
  \<open>isExcluded\<close> in the specification's words: the path relative to the root; excluded
  when that escapes the root (a parent reference, or absolute); otherwise excluded iff
  some pattern matches the relative path or, for a directory, the relative path with a
  trailing separator.
\<close>

definition isExcluded_spec :: "env \<Rightarrow> string \<Rightarrow> string \<Rightarrow> string list \<Rightarrow> bool" where
  "isExcluded_spec e p root excludeSet =
     (let rel = path_relative e root p;
          is_dir = (case fs_stat e p of Some st \<Rightarrow> st_kind st = IsDirectory | None \<Rightarrow> False)
      in if rel = ''..'' \<or> startsWith rel ''../'' \<or> path_isAbsolute e rel then True
         else list_ex (\<lambda>pat. glob_match pat rel) excludeSet
              \<or> (is_dir \<and> list_ex (\<lambda>pat. glob_match pat (rel @ ''/'')) excludeSet))"

text \<open>A directory /repo with the subdirectory build and the file a.ts.\<close>

definition build_env :: env where
  "build_env = with_files [(''/repo'', [''build'', ''a.ts'']), (''/repo/build'', [])]
                 [(''/repo/a.ts'', ''let x = 1'')] node_posix"

text \<open>
  The characters \<open>matchPattern\<close> passes on to \<open>new RegExp\<close> as they are although the
  regular expression reads them as syntax. The exclusion theorem is stated for patterns
  without them.
\<close>

definition regexp_syntax_char :: "char \<Rightarrow> bool" where
  "regexp_syntax_char c = (c \<in> set ''^$+()[]{}|'' \<or> c = backslash)"

text \<open>
  An ASCII character is one byte and one UTF-16 code unit. One that is not a line break
  is matched by \<open>.\<close> in a regular expression.
\<close>

definition is_ascii :: "char \<Rightarrow> bool" where
  "is_ascii c = ((of_char c :: nat) < 128)"

definition plain_path_char :: "char \<Rightarrow> bool" where
  "plain_path_char c = (let n = (of_char c :: nat) in n < 128 \<and> n \<noteq> 10 \<and> n \<noteq> 13)"

text \<open>
  What is assumed of \<open>RegExp\<close>: for an ASCII source and an ASCII text without line breaks
  it answers as \<open>anchored_test\<close> does wherever that is defined, that is for the sources
  made, between \<open>^\<close> and \<open>$\<close>, of literal characters, escaped characters, \<open>.\<close> and
  starred atoms. Nothing is assumed of the sources \<open>anchored_test\<close> does not read.
\<close>

definition regexp_agrees :: "env \<Rightarrow> bool" where
  "regexp_agrees e =
     (\<forall>src s r. list_all is_ascii src \<and> list_all plain_path_char s
          \<and> anchored_test src s = Some r
        \<longrightarrow> regexp_test e src s = Some r)"

text \<open>
  One character of a pattern: the piece of regular expression source the three
  replacements of \<open>matchPattern\<close> leave for it, and the atom that piece denotes.
\<close>

definition glob_source :: "char \<Rightarrow> string" where
  "glob_source c =
     (if c = CHR ''.'' then [backslash, CHR ''.'']
      else if c = CHR ''*'' then ''.*''
      else if c = CHR ''?'' then ''.''
      else [c])"

definition glob_atom :: "char \<Rightarrow> rx_atom \<times> bool" where
  "glob_atom c =
     (if c = CHR ''*'' then (RxAny, True)
      else if c = CHR ''?'' then (RxAny, False)
      else (RxChar c, False))"

section \<open>The display order as the specification words it\<close>

text \<open>
  The priority group of a child, on its lowercased name: 0 for a file named exactly
  readme.md, 1 for the other files that are not hidden, 2 for hidden files, 3 for
  directories that are not hidden, 4 for hidden directories.
\<close>

definition priority_group :: "env \<Rightarrow> FileSystemNode \<Rightarrow> nat" where
  "priority_group e c =
     (let nm = toLowerCase e (name c); hidden = startsWith nm ''.''
      in if ntype c = FILE
         then (if nm = ''readme.md'' then 0 else if hidden then 2 else 1)
         else (if hidden then 4 else 3))"

text \<open>A child comes before another: a lower group, or the same group and a name not after.\<close>

definition sorts_before :: "env \<Rightarrow> FileSystemNode \<Rightarrow> FileSystemNode \<Rightarrow> bool" where
  "sorts_before e a b =
     (priority_group e a < priority_group e b
      \<or> (priority_group e a = priority_group e b
          \<and> localeCompare e (toLowerCase e (name a)) (toLowerCase e (name b)) \<le> 0))"

text \<open>\<open>localeCompare\<close> orders the strings: any two compare, and the comparison is transitive.\<close>

definition locale_order :: "env \<Rightarrow> bool" where
  "locale_order e =
     ((\<forall>a b. localeCompare e a b \<le> 0 \<or> localeCompare e b a \<le> 0)
      \<and> (\<forall>a b c. localeCompare e a b \<le> 0 \<longrightarrow> localeCompare e b c \<le> 0
             \<longrightarrow> localeCompare e a c \<le> 0))"

text \<open>
  A directory whose listing gives src, .env, b.txt, .git and README.md in this order, and
  the same node with its children in display order.
\<close>

definition listed_children :: "FileSystemNode list" where
  "listed_children =
     [FileSystemNode ''src'' DIRECTORY ''src'' ''/proj/src'' 0 0 0 1 [],
      FileSystemNode ''.env'' FILE ''.env'' ''/proj/.env'' 3 1 0 1 [],
      FileSystemNode ''b.txt'' FILE ''b.txt'' ''/proj/b.txt'' 5 1 0 1 [],
      FileSystemNode ''.git'' DIRECTORY ''.git'' ''/proj/.git'' 0 0 0 1 [],
      FileSystemNode ''README.md'' FILE ''README.md'' ''/proj/README.md'' 7 1 0 1 []]"

definition displayed_children :: "FileSystemNode list" where
  "displayed_children =
     [FileSystemNode ''README.md'' FILE ''README.md'' ''/proj/README.md'' 7 1 0 1 [],
      FileSystemNode ''b.txt'' FILE ''b.txt'' ''/proj/b.txt'' 5 1 0 1 [],
      FileSystemNode ''.env'' FILE ''.env'' ''/proj/.env'' 3 1 0 1 [],
      FileSystemNode ''src'' DIRECTORY ''src'' ''/proj/src'' 0 0 0 1 [],
      FileSystemNode ''.git'' DIRECTORY ''.git'' ''/proj/.git'' 0 0 0 1 []]"

definition project_node :: "FileSystemNode list \<Rightarrow> FileSystemNode" where
  "project_node ch = FileSystemNode ''proj'' DIRECTORY [] ''/proj'' 15 3 2 0 ch"

section \<open>Properties of the result tree\<close>

text \<open>The nodes strictly below a node, and the well-formedness of one node's totals.\<close>

fun descendants :: "FileSystemNode \<Rightarrow> FileSystemNode list" where
  "descendants (FileSystemNode nm ty ps p sz fc dc d ch) =
     concat (map (\<lambda>c. c # descendants c) ch)"

definition is_file :: "FileSystemNode \<Rightarrow> bool" where
  "is_file n = (ntype n = FILE)"

definition is_directory :: "FileSystemNode \<Rightarrow> bool" where
  "is_directory n = (ntype n = DIRECTORY)"

definition totals_ok :: "FileSystemNode \<Rightarrow> bool" where
  "totals_ok n =
     (if ntype n = DIRECTORY
      then nsize n = sum_list (map nsize (filter is_file (descendants n)))
           \<and> file_count n = length (filter is_file (descendants n))
           \<and> dir_count n = length (filter is_directory (descendants n))
      else children n = [] \<and> dir_count n = 0)"

definition tree_ok :: "FileSystemNode \<Rightarrow> bool" where
  "tree_ok n = list_all totals_ok (n # descendants n)"

text \<open>The children of the node and of every node below it are in display order.\<close>

definition all_sorted :: "env \<Rightarrow> FileSystemNode \<Rightarrow> bool" where
  "all_sorted e n = list_all (\<lambda>m. sorted_wrt (sorts_before e) (children m)) (n # descendants n)"

section \<open>Pattern validation happens when the query is built\<close>

lemma parsePatterns_loop_ok:
  "(\<exists>ns. parsePatterns_loop e ps acc = Inr ns) \<longleftrightarrow> (\<forall>p\<in>set ps. p \<noteq> [] \<longrightarrow> isValidPattern p)"
  by (induction ps arbitrary: acc) auto

lemma parsePatterns_loop_err:
  "parsePatterns_loop e ps acc = Inl err \<Longrightarrow>
     \<exists>p\<in>set ps. p \<noteq> [] \<and> \<not> isValidPattern p
        \<and> err = InvalidPatternError (invalid_pattern_message p)"
  by (induction ps arbitrary: acc) (auto split: if_splits)

lemma processFile_no_pattern_error:
  "processFile e fp parent st lp \<noteq> Inl (InvalidPatternError m)"
  by (simp add: processFile_def Let_def split: option.splits)

lemma resolveEntry_no_pattern_error:
  "resolveEntry e q node st entry \<noteq> Throw (InvalidPatternError m)"
  by (simp add: resolveEntry_def Let_def split: option.splits)

lemma sortChildren_no_pattern_error:
  "sortChildren e node \<noteq> Inl (InvalidPatternError m)"
  by (simp add: sortChildren_def)

lemma traversal_no_pattern_error:
  "processNode e q node st \<noteq> Inl (InvalidPatternError m)"
  "processEntries e q node st entries \<noteq> Inl (InvalidPatternError m)"
proof (induction e q node st and e q node st entries rule: processNode_processEntries.induct)
  case (1 e query node stats)
  then show ?case
    by (subst processNode.simps)
       (auto simp: sortChildren_no_pattern_error split: option.splits sum.splits)
next
  case (2 e query node stats)
  then show ?case by simp
next
  case (3 e query node stats entry rest)
  then show ?case
    by (subst processEntries.simps)
       (auto simp: processFile_no_pattern_error resolveEntry_no_pattern_error
             split: entry_outcome.splits sum.splits)
qed

lemma ingestQuery_no_pattern_error:
  "snd (ingestQuery e q) \<noteq> Inl (InvalidPatternError m)"
  by (auto simp: ingestQuery_def ingestTarget_def Let_def traversal_no_pattern_error
           split: option.splits sum.splits)

text \<open>
  Claim C6, as stated, has the at sign among the accepted characters. That is the check of
  utils/query_parser.ts, which nothing imports; the check \<open>parsePatterns\<close> calls rejects
  the pattern \<open>a@b\<close>, and query construction fails on it.
\<close>

theorem C6_counterexample:
  "isValidPattern_query_parser ''a@b'' \<and> \<not> isValidPattern ''a@b''
   \<and> parsePatterns node_posix (PatternSet [''a@b''])
       = Inl (InvalidPatternError (invalid_pattern_message ''a@b''))"
  by (simp add: isValidPattern_query_parser_def isValidPattern_def is_alnum_def
        parsePatterns_def pattern_tokens_def)

text \<open>
  Claim C6, amended: the validation used at query construction accepts a pattern iff it is
  not empty and each of its characters is alphanumeric or one of \<open>- _ . / + *\<close> (the at
  sign is rejected); \<open>parsePatterns\<close> succeeds iff every non-empty token passes, and fails
  with an \<open>InvalidPatternError\<close> naming a rejected token otherwise; neither the traversal
  nor \<open>ingestQuery\<close> ever raises that error.
\<close>

theorem C6_pattern_validation:
  "(isValidPattern p \<longleftrightarrow> p \<noteq> [] \<and> (\<forall>c\<in>set p. is_alnum c \<or> c \<in> set ''-_./+*''))
   \<and> ((\<exists>ns. parsePatterns e arg = Inr ns)
        \<longleftrightarrow> (\<forall>t\<in>set (pattern_tokens e arg). t \<noteq> [] \<longrightarrow> isValidPattern t))
   \<and> (\<forall>err. parsePatterns e arg = Inl err \<longrightarrow>
         (\<exists>t\<in>set (pattern_tokens e arg). \<not> isValidPattern t
            \<and> err = InvalidPatternError (invalid_pattern_message t)))
   \<and> processNode e q node st \<noteq> Inl (InvalidPatternError m)
   \<and> snd (ingestQuery e q) \<noteq> Inl (InvalidPatternError m)"
proof -
  have "isValidPattern p \<longleftrightarrow> p \<noteq> [] \<and> (\<forall>c\<in>set p. is_alnum c \<or> c \<in> set ''-_./+*'')"
    unfolding isValidPattern_def list_all_iff by (rule refl)
  moreover have "(\<exists>ns. parsePatterns e arg = Inr ns)
        \<longleftrightarrow> (\<forall>t\<in>set (pattern_tokens e arg). t \<noteq> [] \<longrightarrow> isValidPattern t)"
    unfolding parsePatterns_def by (rule parsePatterns_loop_ok)
  moreover have "\<forall>err. parsePatterns e arg = Inl err \<longrightarrow>
         (\<exists>t\<in>set (pattern_tokens e arg). \<not> isValidPattern t
            \<and> err = InvalidPatternError (invalid_pattern_message t))"
    unfolding parsePatterns_def using parsePatterns_loop_err by blast
  ultimately show ?thesis
    using traversal_no_pattern_error(1) ingestQuery_no_pattern_error by blast
qed

theorem C6_pattern_validation_witness:
  "isValidPattern ''*.ts''
   \<and> parsePatterns node_posix (PatternString ''/src/, *.ts'') = Inr [''src'', ''*.ts'']
   \<and> pattern_tokens node_posix (PatternString ''/src/, *.ts'') = [''/src/'', ''*.ts'']
   \<and> isValidPattern ''/src/''
   \<and> snd (ingestQuery node_posix (local_query ''/repo''))
        \<noteq> Inl (InvalidPatternError ''x'')"
proof -
  have v: "isValidPattern ''*.ts''" "isValidPattern ''/src/''"
    by (simp_all add: isValidPattern_def is_alnum_def)
  have t: "pattern_tokens node_posix (PatternString ''/src/, *.ts'') = [''/src/'', ''*.ts'']"
    by (simp add: pattern_tokens_def node_posix_def ascii_space_def)
  have n: "normalizePattern node_posix ''/src/'' = ''src''"
          "normalizePattern node_posix ''*.ts'' = ''*.ts''"
    by (simp_all add: normalizePattern_def node_posix_def ascii_trim_def ascii_space_def
          strip_slashes_def)
  have r: "parsePatterns node_posix (PatternString ''/src/, *.ts'') = Inr [''src'', ''*.ts'']"
    by (simp add: parsePatterns_def t v n set_add_def)
  show ?thesis
    using C6_pattern_validation [of "''*.ts''" node_posix "PatternString ''/src/, *.ts''"
            "local_query ''/repo''" "new_FileSystemNode [] DIRECTORY [] []" new_FileSystemStats
            "''x''"] r v
    by (simp add: t)
qed

section \<open>The totals of the result tree\<close>

lemma descendants_children:
  "descendants n = concat (map (\<lambda>c. c # descendants c) (children n))"
  by (cases n) simp

lemma sum_list_mset_cong:
  fixes h :: "'a \<Rightarrow> 'b::comm_monoid_add"
  assumes "mset xs = mset ys"
  shows "sum_list (map h xs) = sum_list (map h ys)"
proof -
  have "sum_list (map h zs) = sum_mset (image_mset h (mset zs))" for zs
    by (induction zs) simp_all
  then show ?thesis using assms by simp
qed

lemma sum_filter: "sum_list (map f (filter P xs)) = (sum_list (map (\<lambda>x. if P x then f x else 0) xs) :: nat)"
  by (induction xs) auto

lemma length_filter_sum: "length (filter P xs) = sum_list (map (\<lambda>x. if P x then 1 else 0) xs)"
  by (induction xs) auto


lemma mset_descendants:
  "mset (descendants n) = sum_list (map (\<lambda>c. add_mset c (mset (descendants c))) (children n))"
proof (cases n)
  case (FileSystemNode nm ty ps p sz fc dc d ch)
  have "mset (concat (map (\<lambda>c. c # descendants c) xs))
        = sum_list (map (\<lambda>c. add_mset c (mset (descendants c))) xs)" for xs
    by (induction xs) simp_all
  then show ?thesis using FileSystemNode by simp
qed


lemma tree_ok_iff:
  "tree_ok n \<longleftrightarrow> totals_ok n \<and> (\<forall>c\<in>set (children n). tree_ok c)"
proof -
  have "list_all totals_ok (descendants n) = (\<forall>c\<in>set (children n). tree_ok c)"
    by (subst descendants_children) (auto simp: list_all_iff tree_ok_def)
  then show ?thesis by (simp add: tree_ok_def)
qed

lemma mset_insert_by: "mset (insert_by cmp x ys) = add_mset x (mset ys)"
  by (induction ys) auto

lemma mset_array_sort: "mset (array_sort cmp xs) = mset xs"
  by (induction xs) (auto simp: array_sort_def mset_insert_by)

lemma mset_descendants_cong:
  assumes "mset (children a) = mset (children b)"
  shows "mset (descendants a) = mset (descendants b)"
proof -
  have "mset (descendants a)
        = sum_list (map (\<lambda>c. add_mset c (mset (descendants c))) (children a))"
    by (rule mset_descendants)
  also have "\<dots> = sum_list (map (\<lambda>c. add_mset c (mset (descendants c))) (children b))"
    using assms by (rule sum_list_mset_cong)
  also have "\<dots> = mset (descendants b)"
    by (rule mset_descendants[symmetric])
  finally show ?thesis .
qed

lemma totals_ok_perm:
  assumes "mset (children a) = mset (children b)" "ntype a = ntype b" "nsize a = nsize b"
    "file_count a = file_count b" "dir_count a = dir_count b" "totals_ok a"
  shows "totals_ok b"
proof -
  have m: "mset (descendants a) = mset (descendants b)"
    using assms(1) by (rule mset_descendants_cong)
  have c: "children a = [] \<longleftrightarrow> children b = []"
    using assms(1) by (cases "children a"; cases "children b") auto
  have s: "sum_list (map nsize (filter is_file (descendants a)))
         = sum_list (map nsize (filter is_file (descendants b)))"
    unfolding sum_filter using m by (rule sum_list_mset_cong)
  have f: "length (filter P (descendants a)) = length (filter P (descendants b))" for P
    unfolding length_filter_sum using m by (rule sum_list_mset_cong)
  show ?thesis
    using assms(2-) c s f[of is_file] f[of is_directory] unfolding totals_ok_def
    by (simp split: if_splits)
qed

lemma sortChildren_tree_ok:
  assumes "sortChildren e node = Inr node'" "tree_ok node"
  shows "tree_ok node' \<and> ntype node' = DIRECTORY"
proof -
  from assms(1) have d: "ntype node = DIRECTORY"
    and n': "node' = with_children node (array_sort (compareChildren e) (children node))"
    by (auto simp: sortChildren_def split: if_splits)
  have ch: "children node' = array_sort (compareChildren e) (children node)"
    by (simp add: n' with_children_def)
  have m: "mset (children node) = mset (children node')"
    by (simp add: ch mset_array_sort)
  have "totals_ok node" using assms(2) by (simp add: tree_ok_iff[of node])
  then have t: "totals_ok node'"
    by (rule totals_ok_perm[OF m, rotated -1]) (simp_all add: n' with_children_def)
  have "set (children node') = set (children node)"
    using m by (rule mset_eq_setD[symmetric])
  then have "\<forall>c\<in>set (children node'). tree_ok c"
    using assms(2) by (simp add: tree_ok_iff[of node])
  with t have "tree_ok node'" by (simp add: tree_ok_iff[of node'])
  moreover have "ntype node' = DIRECTORY" using d by (simp add: n' with_children_def)
  ultimately show ?thesis by simp
qed

lemma file_child_ok:
  "tree_ok (FileSystemNode nm FILE ps p sz fc 0 d [])"
  by (simp add: tree_ok_def totals_ok_def)

lemma child_directory_node_fresh:
  "tree_ok (child_directory_node e q node tp sp)
   \<and> ntype (child_directory_node e q node tp sp) = DIRECTORY"
  by (simp add: child_directory_node_def tree_ok_def totals_ok_def split: option.splits)


lemma append_file_tree_ok:
  assumes "tree_ok parent" "ntype parent = DIRECTORY"
  shows "tree_ok (FileSystemNode (name parent) (ntype parent) (path_str parent) (path parent)
           (nsize parent + sz) (file_count parent + 1) (dir_count parent) (depth parent)
           (children parent @ [FileSystemNode nm FILE ps p sz fc 0 d []]))"
    (is "tree_ok ?n")
proof -
  have t: "totals_ok parent" and c: "\<forall>c\<in>set (children parent). tree_ok c"
    using assms(1) by (simp_all add: tree_ok_iff[of parent])
  have d: "descendants ?n = descendants parent @ [FileSystemNode nm FILE ps p sz fc 0 d []]"
    by (simp add: descendants_children[of parent])
  have "totals_ok ?n"
    using t assms(2) unfolding totals_ok_def d by (simp add: is_file_def is_directory_def)
  moreover have "\<forall>c\<in>set (children ?n). tree_ok c"
    using c file_child_ok[of nm ps p sz fc d] by simp
  ultimately show ?thesis by (simp only: tree_ok_iff[of ?n] simp_thms)
qed

lemma processFile_tree_ok:
  assumes "processFile e fp parent st lp = Inr (node', st')" "tree_ok parent" "ntype parent = DIRECTORY"
  shows "tree_ok node' \<and> ntype node' = DIRECTORY"
proof -
  from assms(1) consider "node' = parent"
    | sz nm ps where "node' = FileSystemNode (name parent) (ntype parent) (path_str parent) (path parent)
           (nsize parent + sz) (file_count parent + 1) (dir_count parent) (depth parent)
           (children parent @ [FileSystemNode nm FILE ps fp sz 1 0 (depth parent + 1) []])"
    by (auto simp: processFile_def Let_def split: option.splits if_splits)
  then show ?thesis
  proof cases
    case 1
    then show ?thesis using assms(2,3) by simp
  next
    case 2
    then show ?thesis using append_file_tree_ok[OF assms(2,3)] assms(3) by simp
  qed
qed

lemma add_directory_tree_ok:
  assumes "tree_ok node" "ntype node = DIRECTORY" "tree_ok child" "ntype child = DIRECTORY"
  shows "tree_ok (add_directory node child) \<and> ntype (add_directory node child) = DIRECTORY"
proof -
  let ?n = "add_directory node child"
  have t: "totals_ok node" and c: "\<forall>c\<in>set (children node). tree_ok c"
    using assms(1) by (simp_all add: tree_ok_iff[of node])
  have tc: "totals_ok child" using assms(3) by (simp add: tree_ok_iff[of child])
  have d: "descendants ?n = descendants node @ child # descendants child"
    by (simp add: add_directory_def descendants_children[of node])
  have f: "ntype ?n = DIRECTORY" "nsize ?n = nsize node + nsize child"
    "file_count ?n = file_count node + file_count child"
    "dir_count ?n = dir_count node + (1 + dir_count child)"
    "children ?n = children node @ [child]"
    using assms(2) by (simp_all add: add_directory_def)
  have "totals_ok ?n"
    using t tc assms(2,4) unfolding totals_ok_def d f
    by (simp add: is_file_def is_directory_def)
  moreover have "\<forall>c\<in>set (children ?n). tree_ok c"
    using c assms(3) unfolding f by simp
  ultimately show ?thesis using f(1) by (simp only: tree_ok_iff[of ?n] simp_thms)
qed


lemma traversal_tree_ok:
  "ntype node = DIRECTORY \<Longrightarrow> tree_ok node \<Longrightarrow> processNode e q node st = Inr (node', st')
     \<Longrightarrow> tree_ok node' \<and> ntype node' = DIRECTORY"
  "ntype node = DIRECTORY \<Longrightarrow> tree_ok node \<Longrightarrow> processEntries e q node st entries = Inr (node', st')
     \<Longrightarrow> tree_ok node' \<and> ntype node' = DIRECTORY"
proof (induction e q node st and e q node st entries arbitrary: node' st' and node' st'
       rule: processNode_processEntries.induct)
  case (1 e query node stats)
  show ?case
  proof (cases "limitExceeded stats (depth node)")
    case True
    with "1.prems" show ?thesis by (simp add: processNode.simps)
  next
    case False
    with "1.prems"(3) obtain entries n1 where
      rd: "fs_readdir e (path node) = Some entries"
      and pe: "processEntries e query node stats entries = Inr (n1, st')"
      and so: "sortChildren e n1 = Inr node'"
      by (auto simp: processNode.simps split: option.splits sum.splits)
    from "1.IH"[OF False rd "1.prems"(1,2) pe] have "tree_ok n1" by simp
    with so show ?thesis by (rule sortChildren_tree_ok)
  qed
next
  case (2 e query node stats)
  then show ?case by simp
next
  case (3 e query node stats entry rest)
  show ?case
  proof (cases "resolveEntry e query node stats entry")
    case (Skip s1)
    with "3.prems" "3.IH"(1)[OF Skip] show ?thesis by simp
  next
    case (Throw err)
    with "3.prems" show ?thesis by simp
  next
    case (AFile tp s1)
    with "3.prems"(3) obtain n1 s2 where
      pf: "processFile e tp node s1 (local_path query) = Inr (n1, s2)"
      and r: "processEntries e query n1 s2 rest = Inr (node', st')"
      by (auto split: sum.splits)
    from processFile_tree_ok[OF pf "3.prems"(2,1)]
    have n1: "ntype n1 = DIRECTORY" "tree_ok n1" by simp_all
    show ?thesis by (rule "3.IH"(2)[OF AFile pf refl n1 r])
  next
    case (ADirectory tp sp s1)
    with "3.prems"(3) obtain c1 s2 where
      pn: "processNode e query (child_directory_node e query node tp sp) s1 = Inr (c1, s2)"
      and r: "processEntries e query (add_directory node c1) s2 rest = Inr (node', st')"
      by (auto split: sum.splits)
    have fr: "ntype (child_directory_node e query node tp sp) = DIRECTORY"
      "tree_ok (child_directory_node e query node tp sp)"
      using child_directory_node_fresh by simp_all
    from "3.IH"(3)[OF ADirectory fr pn]
    have c: "tree_ok c1" "ntype c1 = DIRECTORY" by simp_all
    from add_directory_tree_ok[OF "3.prems"(2,1) c]
    have a: "ntype (add_directory node c1) = DIRECTORY" "tree_ok (add_directory node c1)"
      by simp_all
    show ?thesis by (rule "3.IH"(4)[OF ADirectory pn refl a r])
  qed
qed

subsection \<open>The example, evaluated\<close>

lemma example_fields:
  "path_join example_env = posix_join"
  "path_relative example_env = posix_relative"
  "path_basename example_env = posix_basename"
  "path_isAbsolute example_env = (\<lambda>p. startsWith p ''/'')"
  "toLowerCase example_env = ascii_lower"
  "localeCompare example_env = bytes_compare"
  "fs_readdir example_env ''/repo'' =
     Some [\<lparr>d_name = ''a.md'', d_isSymbolicLink = False\<rparr>,
           \<lparr>d_name = ''sub'', d_isSymbolicLink = False\<rparr>]"
  "fs_readdir example_env ''/repo/sub'' = Some [\<lparr>d_name = ''b.py'', d_isSymbolicLink = False\<rparr>]"
  "fs_stat example_env ''/repo/a.md'' = Some \<lparr>st_kind = IsFile, st_size = 4\<rparr>"
  "fs_stat example_env ''/repo/sub'' = Some \<lparr>st_kind = IsDirectory, st_size = 4096\<rparr>"
  "fs_stat example_env ''/repo/sub/b.py'' = Some \<lparr>st_kind = IsFile, st_size = 8\<rparr>"
  by (simp_all add: example_env_def with_files_def node_posix_def)

lemma example_paths:
  "posix_join [''/repo'', ''a.md''] = ''/repo/a.md''"
  "posix_join [''/repo'', ''sub''] = ''/repo/sub''"
  "posix_join [''/repo/sub'', ''b.py''] = ''/repo/sub/b.py''"
  "posix_relative ''/repo'' ''/repo/a.md'' = ''a.md''"
  "posix_relative ''/repo'' ''/repo/sub'' = ''sub''"
  "posix_relative ''/repo'' ''/repo/sub/b.py'' = ''sub/b.py''"
  "posix_basename ''/repo/a.md'' = ''a.md''"
  "posix_basename ''/repo/sub'' = ''sub''"
  "posix_basename ''/repo/sub/b.py'' = ''b.py''"
  by (simp_all add: posix_join_def posix_relative_def posix_basename_def segments_def
        startsWith_def)

lemma example_not_excluded:
  "\<not> shouldExclude example_env ''/repo/a.md'' ''/repo'' []"
  "\<not> shouldExclude example_env ''/repo/sub'' ''/repo'' []"
  "\<not> shouldExclude example_env ''/repo/sub/b.py'' ''/repo'' []"
  by (simp_all add: shouldExclude_def example_fields example_paths startsWith_def)

lemma example_query [simp]:
  "local_path (local_query ''/repo'') = ''/repo''"
  "ignore_patterns (local_query ''/repo'') = []"
  "include_patterns (local_query ''/repo'') = None"
  by (simp_all add: local_query_def)

lemma example_resolve:
  "path node = ''/repo'' \<Longrightarrow> ''/repo/a.md'' \<notin> visited st \<Longrightarrow>
     resolveEntry example_env (local_query ''/repo'') node st
       \<lparr>d_name = ''a.md'', d_isSymbolicLink = False\<rparr>
     = AFile ''/repo/a.md'' (st\<lparr>visited := insert ''/repo/a.md'' (visited st)\<rparr>)"
  "path node = ''/repo'' \<Longrightarrow> ''/repo/sub'' \<notin> visited st \<Longrightarrow>
     resolveEntry example_env (local_query ''/repo'') node st
       \<lparr>d_name = ''sub'', d_isSymbolicLink = False\<rparr>
     = ADirectory ''/repo/sub'' None (st\<lparr>visited := insert ''/repo/sub'' (visited st)\<rparr>)"
  "path node = ''/repo/sub'' \<Longrightarrow> ''/repo/sub/b.py'' \<notin> visited st \<Longrightarrow>
     resolveEntry example_env (local_query ''/repo'') node st
       \<lparr>d_name = ''b.py'', d_isSymbolicLink = False\<rparr>
     = AFile ''/repo/sub/b.py'' (st\<lparr>visited := insert ''/repo/sub/b.py'' (visited st)\<rparr>)"
  by (simp_all add: resolveEntry_def Let_def example_fields example_paths example_not_excluded)

lemma example_sub:
  "processNode example_env (local_query ''/repo'')
     (FileSystemNode ''sub'' DIRECTORY ''sub'' ''/repo/sub'' 0 0 0 (Suc 0) [])
     \<lparr>visited = {''/repo/sub'', ''/repo/a.md''}, total_files = Suc 0, total_size = 4\<rparr>
   = Inr (FileSystemNode ''sub'' DIRECTORY ''sub'' ''/repo/sub'' 8 1 0 1
            [FileSystemNode ''b.py'' FILE ''sub/b.py'' ''/repo/sub/b.py'' 8 1 0 2 []],
          \<lparr>visited = {''/repo/sub/b.py'', ''/repo/sub'', ''/repo/a.md''},
           total_files = 2, total_size = 12\<rparr>)"
  by (subst processNode.simps)
     (simp add: limitExceeded_def MAX_DIRECTORY_DEPTH_def example_fields example_resolve
        processFile_def Let_def example_paths MAX_FILES_def MAX_TOTAL_SIZE_BYTES_def
        sortChildren_def with_children_def array_sort_def)

lemma example_order:
  "compareChildren example_env
     (FileSystemNode ''a.md'' FILE ps p sz fc dc d ch)
     (FileSystemNode ''sub'' DIRECTORY ps' p' sz' fc' dc' d' ch') = - 2"
  by (simp add: compareChildren_def sortKey_def example_fields ascii_lower_def startsWith_def)

lemma example_traversal:
  "processNode example_env (local_query ''/repo'')
     (new_FileSystemNode ''repo'' DIRECTORY [] ''/repo'') new_FileSystemStats
   = Inr (example_tree, example_stats)"
  by (subst processNode.simps)
     (simp add: limitExceeded_def MAX_DIRECTORY_DEPTH_def new_FileSystemNode_def
        new_FileSystemStats_def example_fields example_resolve processFile_def Let_def
        example_paths MAX_FILES_def MAX_TOTAL_SIZE_BYTES_def child_directory_node_def
        example_sub add_directory_def sortChildren_def with_children_def array_sort_def
        example_order example_tree_def example_stats_def insert_commute)

subsection \<open>Claim C1\<close>

text \<open>
  Claim C1: after a completed traversal of a directory, every \<open>DIRECTORY\<close> node of the
  resulting tree has as \<open>size\<close> the sum of the sizes of the \<open>FILE\<close> nodes below it, as
  \<open>file_count\<close> their number and as \<open>dir_count\<close> the number of \<open>DIRECTORY\<close> nodes
  below it (itself excluded); every \<open>FILE\<close> node has no children and \<open>dir_count = 0\<close>.
  The root is the node \<open>ingestQuery\<close> builds; the state it starts from is arbitrary.
\<close>

theorem C1_totals:
  assumes "processNode e q (new_FileSystemNode nm DIRECTORY ps p) st = Inr (root, st')"
  shows "\<forall>n\<in>set (root # descendants root).
           (ntype n = DIRECTORY \<longrightarrow>
              nsize n = sum_list (map nsize (filter is_file (descendants n)))
              \<and> file_count n = length (filter is_file (descendants n))
              \<and> dir_count n = length (filter is_directory (descendants n)))
           \<and> (ntype n = FILE \<longrightarrow> children n = [] \<and> dir_count n = 0)"
proof -
  have "tree_ok (new_FileSystemNode nm DIRECTORY ps p)"
    by (simp add: new_FileSystemNode_def tree_ok_def totals_ok_def)
  moreover have "ntype (new_FileSystemNode nm DIRECTORY ps p) = DIRECTORY"
    by (simp add: new_FileSystemNode_def)
  ultimately have "tree_ok root"
    using traversal_tree_ok(1)[OF _ _ assms] by simp
  then have "\<forall>n\<in>set (root # descendants root). totals_ok n"
    by (simp add: tree_ok_def list_all_iff)
  then show ?thesis
    unfolding totals_ok_def by (auto split: if_splits)
qed

theorem C1_totals_witness:
  "processNode example_env (local_query ''/repo'')
     (new_FileSystemNode ''repo'' DIRECTORY [] ''/repo'') new_FileSystemStats
     = Inr (example_tree, example_stats)
   \<and> nsize example_tree = sum_list (map nsize (filter is_file (descendants example_tree)))
   \<and> file_count example_tree = length (filter is_file (descendants example_tree))
   \<and> dir_count example_tree = length (filter is_directory (descendants example_tree))
   \<and> map name (filter is_file (descendants example_tree)) = [''a.md'', ''b.py'']
   \<and> nsize example_tree = 12"
proof -
  have d: "ntype example_tree = DIRECTORY"
    by (simp add: example_tree_def)
  have f: "map name (filter is_file (descendants example_tree)) = [''a.md'', ''b.py'']"
    "nsize example_tree = 12"
    by (simp_all add: example_tree_def is_file_def)
  show ?thesis
    using C1_totals [OF example_traversal] d f example_traversal by simp
qed

section \<open>What the ingestion reads of the query\<close>

lemma resolveEntry_max_file_size:
  "resolveEntry e (q\<lparr>max_file_size := m\<rparr>) node st entry = resolveEntry e q node st entry"
  by (simp add: resolveEntry_def Let_def cong: if_cong option.case_cong)

lemma child_directory_node_max_file_size:
  "child_directory_node e (q\<lparr>max_file_size := m\<rparr>) node tp sp = child_directory_node e q node tp sp"
  by (simp add: child_directory_node_def cong: if_cong option.case_cong)

lemma traversal_max_file_size:
  "processNode e (q\<lparr>max_file_size := m\<rparr>) node st = processNode e q node st"
  "processEntries e (q\<lparr>max_file_size := m\<rparr>) node st entries = processEntries e q node st entries"
proof (induction e q node st and e q node st entries rule: processNode_processEntries.induct)
  case (1 e query node stats)
  show ?case
  proof (cases "limitExceeded stats (depth node)")
    case True
    then show ?thesis by (simp add: processNode.simps)
  next
    case False
    show ?thesis
    proof (cases "fs_readdir e (path node)")
      case None
      with False show ?thesis by (simp add: processNode.simps)
    next
      case (Some entries)
      from "1.IH"[OF False Some] False Some show ?thesis
        by (simp add: processNode.simps[of e "query\<lparr>max_file_size := m\<rparr>"] processNode.simps[of e query])
    qed
  qed
next
  case (2 e query node stats)
  show ?case by simp
next
  case (3 e query node stats entry rest)
  show ?case
  proof (cases "resolveEntry e query node stats entry")
    case (Skip s1)
    with "3.IH"(1)[OF Skip] show ?thesis by (simp add: resolveEntry_max_file_size)
  next
    case (Throw err)
    then show ?thesis by (simp add: resolveEntry_max_file_size)
  next
    case (AFile tp s1)
    show ?thesis
    proof (cases "processFile e tp node s1 (local_path query)")
      case (Inl err)
      with AFile show ?thesis by (simp add: resolveEntry_max_file_size)
    next
      case (Inr r)
      obtain n1 s2 where r: "r = (n1, s2)" by (cases r)
      from "3.IH"(2)[OF AFile Inr[unfolded r] refl] AFile Inr r show ?thesis
        by (simp add: resolveEntry_max_file_size)
    qed
  next
    case (ADirectory tp sp s1)
    note c = "3.IH"(3)[OF ADirectory]
    show ?thesis
    proof (cases "processNode e query (child_directory_node e query node tp sp) s1")
      case (Inl err)
      with ADirectory c show ?thesis
        by (simp add: resolveEntry_max_file_size child_directory_node_max_file_size)
    next
      case (Inr r)
      obtain c1 s2 where r: "r = (c1, s2)" by (cases r)
      from "3.IH"(4)[OF ADirectory Inr[unfolded r] refl] ADirectory Inr r c show ?thesis
        by (simp add: resolveEntry_max_file_size child_directory_node_max_file_size)
    qed
  qed
qed

lemma createTree_max_file_size:
  "createTreeStructure (q\<lparr>max_file_size := m\<rparr>) node pre is_last = createTreeStructure q node pre is_last"
  "createTreeChildren (q\<lparr>max_file_size := m\<rparr>) ch pre = createTreeChildren q ch pre"
  by (induction q node pre is_last and q ch pre rule: createTreeStructure_createTreeChildren.induct)
     (simp_all add: Let_def split: prod.splits)

lemma formatNode_max_file_size:
  "formatNode e node (q\<lparr>max_file_size := m\<rparr>) = formatNode e node q"
  by (simp add: formatNode_def createSummaryPrefix_def createTree_max_file_size Let_def
        cong: if_cong)

lemma add_ignore_patterns_max_file_size:
  "add_ignore_patterns vs (q\<lparr>max_file_size := m\<rparr>) = (add_ignore_patterns vs q)\<lparr>max_file_size := m\<rparr>"
  unfolding add_ignore_patterns_def Let_def by (cases "new_Set (toml_strings vs) = []") simp_all

lemma applyGitingestFile_max_file_size:
  "applyGitingestFile e p (q\<lparr>max_file_size := m\<rparr>) = (applyGitingestFile e p q)\<lparr>max_file_size := m\<rparr>"
proof (cases "fs_access e (path_join e [p, ''.gitingest''])")
  case False
  then show ?thesis by (simp add: applyGitingestFile_def)
next
  case True
  then show ?thesis
    by (cases "gitingest_file e (path_join e [p, ''.gitingest''])")
       (simp_all add: applyGitingestFile_def add_ignore_patterns_max_file_size)
qed

lemma ingestTarget_max_file_size:
  "ingestTarget e tp (q\<lparr>max_file_size := m\<rparr>) = ingestTarget e tp q"
  by (simp add: ingestTarget_def Let_def traversal_max_file_size formatNode_max_file_size
        cong: if_cong option.case_cong sum.case_cong prod.case_cong)

lemma ingestQuery_max_file_size:
  "snd (ingestQuery e (q\<lparr>max_file_size := m\<rparr>)) = snd (ingestQuery e q)"
  by (simp add: ingestQuery_def Let_def applyGitingestFile_max_file_size
        ingestTarget_max_file_size)


text \<open>
  Claim C10: two queries that differ only in \<open>max_file_size\<close> give the same digest or the
  same failure on every file system, and the same traversal from every node and state;
  the query handed back differs in that field only. \<open>processFile\<close> is not given the
  query at all: it admits a file on the constants \<open>MAX_TOTAL_SIZE_BYTES\<close> and \<open>MAX_FILES\<close>.
\<close>

theorem C10_max_file_size_unread:
  "snd (ingestQuery e (q\<lparr>max_file_size := m\<rparr>)) = snd (ingestQuery e q)
   \<and> fst (ingestQuery e (q\<lparr>max_file_size := m\<rparr>)) = (fst (ingestQuery e q))\<lparr>max_file_size := m\<rparr>
   \<and> processNode e (q\<lparr>max_file_size := m\<rparr>) node st = processNode e q node st"
  using ingestQuery_max_file_size traversal_max_file_size(1)
  by (simp add: ingestQuery_def Let_def applyGitingestFile_max_file_size)

theorem C10_max_file_size_unread_witness:
  "snd (ingestQuery example_env ((local_query ''/repo'')\<lparr>max_file_size := 1\<rparr>))
     = snd (ingestQuery example_env (local_query ''/repo''))
   \<and> processNode example_env ((local_query ''/repo'')\<lparr>max_file_size := 1\<rparr>)
         (new_FileSystemNode ''repo'' DIRECTORY [] ''/repo'') new_FileSystemStats
       = Inr (example_tree, example_stats)"
  using C10_max_file_size_unread [where e = example_env and q = "local_query ''/repo''"
          and m = 1 and node = "new_FileSystemNode ''repo'' DIRECTORY [] ''/repo''"
          and st = new_FileSystemStats]
        example_traversal
  by simp

section \<open>Running the ingestion again\<close>

lemma set_fold_set_add: "set (fold set_add vs xs) = set vs \<union> set xs"
  by (induction vs arbitrary: xs) (auto simp: set_add_def)

lemma fold_set_add_absorb: "set vs \<subseteq> set xs \<Longrightarrow> fold set_add vs xs = xs"
  by (induction vs arbitrary: xs) (auto simp: set_add_def)

lemma add_ignore_patterns_idem:
  "add_ignore_patterns vs (add_ignore_patterns vs q) = add_ignore_patterns vs q"
  unfolding add_ignore_patterns_def Let_def
  by (cases "new_Set (toml_strings vs) = []")
     (simp_all add: fold_set_add_absorb set_fold_set_add)

lemma add_ignore_patterns_fields:
  "local_path (add_ignore_patterns vs q) = local_path q"
  "subpath (add_ignore_patterns vs q) = subpath q"
  unfolding add_ignore_patterns_def Let_def
  by (cases "new_Set (toml_strings vs) = []"; simp)+

lemma applyGitingestFile_idem:
  "applyGitingestFile e p (applyGitingestFile e p q) = applyGitingestFile e p q"
proof (cases "fs_access e (path_join e [p, ''.gitingest''])")
  case False
  then show ?thesis by (simp add: applyGitingestFile_def)
next
  case True
  then show ?thesis
    by (cases "gitingest_file e (path_join e [p, ''.gitingest''])")
       (simp_all add: applyGitingestFile_def add_ignore_patterns_idem)
qed

lemma applyGitingestFile_fields:
  "local_path (applyGitingestFile e p q) = local_path q"
  "subpath (applyGitingestFile e p q) = subpath q"
  by (cases "fs_access e (path_join e [p, ''.gitingest''])";
      cases "gitingest_file e (path_join e [p, ''.gitingest''])";
      simp add: applyGitingestFile_def add_ignore_patterns_fields)+

lemma ingestQuery_rerun:
  "ingestQuery e (fst (ingestQuery e q)) = ingestQuery e q"
  by (simp add: ingestQuery_def Let_def applyGitingestFile_fields applyGitingestFile_idem)

text \<open>
  Claim C2: the digest is a function of the file system and the query, which is all the
  program reads. What a run leaves behind is the query object, to which it has added the
  patterns of the \<open>.gitingest\<close> file; run again on the same file system with the query as
  the first run left it, the ingestion returns the same summary, tree and content (or the
  same failure) and leaves the query as it is.
\<close>

theorem C2_deterministic:
  "ingestQuery e (fst (ingestQuery e q)) = ingestQuery e q"
  by (rule ingestQuery_rerun)

theorem C2_deterministic_witness:
  "ingestQuery example_env (fst (ingestQuery example_env (local_query ''/repo'')))
     = ingestQuery example_env (local_query ''/repo'')"
  using C2_deterministic [of example_env "local_query ''/repo''"] by simp

section \<open>The budgets\<close>

lemma resolveEntry_plain_file:
  assumes "plain_file e q (path node) d sz" "path_join e [path node, d_name d] \<notin> visited st"
  shows "resolveEntry e q node st d
         = AFile (path_join e [path node, d_name d])
             (st\<lparr>visited := insert (path_join e [path node, d_name d]) (visited st)\<rparr>)"
  using assms by (auto simp: resolveEntry_def plain_file_def Let_def split: option.splits)

lemma processFile_over_budget:
  assumes "fs_stat e p = Some \<lparr>st_kind = k, st_size = sz\<rparr>"
    "total_size st + sz > MAX_TOTAL_SIZE_BYTES"
  shows "processFile e p parent st lp = Inr (parent, st)"
  using assms by (simp add: processFile_def)

lemma processFile_admitted:
  assumes "fs_stat e p = Some \<lparr>st_kind = k, st_size = sz\<rparr>"
    "total_size st + sz \<le> MAX_TOTAL_SIZE_BYTES" "total_files st < MAX_FILES"
  shows "processFile e p parent st lp
         = Inr (with_file parent (file_node e lp p sz parent),
                st\<lparr>total_files := total_files st + 1, total_size := total_size st + sz\<rparr>)"
  using assms by (simp add: processFile_def with_file_def file_node_def Let_def)

lemma processFile_count_reached:
  assumes "MAX_FILES \<le> total_files st" "processFile e p parent st lp = Inr (node', st')"
  shows "node' = parent \<and> MAX_FILES \<le> total_files st'"
  using assms by (auto simp: processFile_def Let_def split: option.splits if_splits)

lemma budget_fields:
  "path_join budget_env = posix_join"
  "path_relative budget_env = posix_relative"
  "path_basename budget_env = posix_basename"
  "path_isAbsolute budget_env = (\<lambda>p. startsWith p ''/'')"
  "fs_stat budget_env ''/repo/A'' = Some \<lparr>st_kind = IsFile, st_size = 3 * 1024 * 1024\<rparr>"
  "fs_stat budget_env ''/repo/B'' = Some \<lparr>st_kind = IsFile, st_size = 1024 * 1024\<rparr>"
  by (simp_all add: budget_env_def node_posix_def)

lemma budget_paths:
  "posix_join [''/repo'', ''A''] = ''/repo/A''"
  "posix_join [''/repo'', ''B''] = ''/repo/B''"
  "posix_relative ''/repo'' ''/repo/A'' = ''A''"
  "posix_relative ''/repo'' ''/repo/B'' = ''B''"
  "posix_basename ''/repo/B'' = ''B''"
  by (simp_all add: posix_join_def posix_relative_def posix_basename_def segments_def
        startsWith_def)

lemma budget_plain_files:
  "plain_file budget_env (local_query ''/repo'') ''/repo''
     \<lparr>d_name = ''A'', d_isSymbolicLink = False\<rparr> (3 * 1024 * 1024)"
  "plain_file budget_env (local_query ''/repo'') ''/repo''
     \<lparr>d_name = ''B'', d_isSymbolicLink = False\<rparr> (1024 * 1024)"
  by (simp_all add: plain_file_def budget_fields budget_paths shouldExclude_def startsWith_def
        local_query_def)

text \<open>
  Claim C4: in a state with \<open>R\<close> bytes of the total-size budget left, a directory lists
  the file A, larger than \<open>R\<close>, before the file B, not larger than \<open>R\<close>. A is skipped and
  the counters stay as they are; B is then admitted, appended and counted: the files are
  checked one by one in listing order. The two entries are regular files that the
  patterns let through and that were not visited before, and the file counter has not
  reached \<open>MAX_FILES\<close> (what happens once it has is the subject of claim C3).
\<close>

theorem C4_size_precheck:
  assumes A: "plain_file e q (path node) A sizeA" and B: "plain_file e q (path node) B sizeB"
    and pA: "pA = path_join e [path node, d_name A]" and pB: "pB = path_join e [path node, d_name B]"
    and fresh: "pA \<notin> visited st" "pB \<notin> visited st" "pA \<noteq> pB"
    and R: "total_size st + R = MAX_TOTAL_SIZE_BYTES" "sizeA > R" "sizeB \<le> R"
    and count: "total_files st < MAX_FILES"
  shows "processFile e pA node (st\<lparr>visited := insert pA (visited st)\<rparr>) (local_path q)
           = Inr (node, st\<lparr>visited := insert pA (visited st)\<rparr>)
         \<and> processEntries e q node st [A, B]
           = Inr (with_file node (file_node e (local_path q) pB sizeB node),
                  st\<lparr>visited := insert pB (insert pA (visited st)),
                     total_files := total_files st + 1,
                     total_size := total_size st + sizeB\<rparr>)"
proof -
  let ?st1 = "st\<lparr>visited := insert pA (visited st)\<rparr>"
  have sA: "fs_stat e pA = Some \<lparr>st_kind = IsFile, st_size = sizeA\<rparr>"
    and sB: "fs_stat e pB = Some \<lparr>st_kind = IsFile, st_size = sizeB\<rparr>"
    using A B by (simp_all add: plain_file_def pA pB)
  have rA: "resolveEntry e q node st A = AFile pA ?st1"
    using resolveEntry_plain_file[OF A] fresh(1) by (simp add: pA)
  have fA: "processFile e pA node ?st1 (local_path q) = Inr (node, ?st1)"
    using R by (intro processFile_over_budget[OF sA]) simp
  have rB: "resolveEntry e q node ?st1 B = AFile pB (?st1\<lparr>visited := insert pB (visited ?st1)\<rparr>)"
    using resolveEntry_plain_file[OF B, of ?st1] fresh(2,3) by (simp add: pB pA)
  have fB: "processFile e pB node (?st1\<lparr>visited := insert pB (visited ?st1)\<rparr>) (local_path q)
        = Inr (with_file node (file_node e (local_path q) pB sizeB node),
               (?st1\<lparr>visited := insert pB (visited ?st1)\<rparr>)
                 \<lparr>total_files := total_files st + 1, total_size := total_size st + sizeB\<rparr>)"
    using R count processFile_admitted[OF sB, of "?st1\<lparr>visited := insert pB (visited ?st1)\<rparr>" node "local_path q"]
    by simp
  show ?thesis
    using fA fB by (simp add: rA rB)
qed


theorem C4_size_precheck_witness:
  "total_size budget_stats + 2 * 1024 * 1024 = MAX_TOTAL_SIZE_BYTES
   \<and> processFile budget_env ''/repo/A'' (new_FileSystemNode ''repo'' DIRECTORY [] ''/repo'')
        (budget_stats\<lparr>visited := {''/repo/A''}\<rparr>) ''/repo''
       = Inr (new_FileSystemNode ''repo'' DIRECTORY [] ''/repo'',
              budget_stats\<lparr>visited := {''/repo/A''}\<rparr>)
   \<and> processEntries budget_env (local_query ''/repo'')
        (new_FileSystemNode ''repo'' DIRECTORY [] ''/repo'') budget_stats
        [\<lparr>d_name = ''A'', d_isSymbolicLink = False\<rparr>, \<lparr>d_name = ''B'', d_isSymbolicLink = False\<rparr>]
       = Inr (FileSystemNode ''repo'' DIRECTORY [] ''/repo'' (1024 * 1024) 1 0 0
                [FileSystemNode ''B'' FILE ''B'' ''/repo/B'' (1024 * 1024) 1 0 1 []],
              \<lparr>visited = {''/repo/B'', ''/repo/A''}, total_files = 8,
               total_size = 499 * 1024 * 1024\<rparr>)"
proof -
  let ?node = "new_FileSystemNode ''repo'' DIRECTORY [] ''/repo''"
  have p: "path ?node = ''/repo''" by (simp add: new_FileSystemNode_def)
  have R: "total_size budget_stats + 2 * 1024 * 1024 = MAX_TOTAL_SIZE_BYTES"
    by (simp add: budget_stats_def MAX_TOTAL_SIZE_BYTES_def)
  have c: "total_files budget_stats < MAX_FILES"
    by (simp add: budget_stats_def MAX_FILES_def)
  have v: "visited budget_stats = {}" by (simp add: budget_stats_def)
  note t = C4_size_precheck [where e = budget_env and q = "local_query ''/repo''"
      and node = ?node and st = budget_stats
      and A = "\<lparr>d_name = ''A'', d_isSymbolicLink = False\<rparr>"
      and B = "\<lparr>d_name = ''B'', d_isSymbolicLink = False\<rparr>"
      and pA = "''/repo/A''" and pB = "''/repo/B''"
      and sizeA = "3 * 1024 * 1024" and sizeB = "1024 * 1024" and R = "2 * 1024 * 1024",
      unfolded p, OF budget_plain_files]
  have "processFile budget_env ''/repo/A'' ?node
          (budget_stats\<lparr>visited := insert ''/repo/A'' (visited budget_stats)\<rparr>)
          (local_path (local_query ''/repo''))
        = Inr (?node, budget_stats\<lparr>visited := insert ''/repo/A'' (visited budget_stats)\<rparr>)
     \<and> processEntries budget_env (local_query ''/repo'') ?node budget_stats
          [\<lparr>d_name = ''A'', d_isSymbolicLink = False\<rparr>, \<lparr>d_name = ''B'', d_isSymbolicLink = False\<rparr>]
        = Inr (with_file ?node (file_node budget_env (local_path (local_query ''/repo''))
                                  ''/repo/B'' (1024 * 1024) ?node),
               budget_stats\<lparr>visited := insert ''/repo/B'' (insert ''/repo/A'' (visited budget_stats)),
                  total_files := total_files budget_stats + 1,
                  total_size := total_size budget_stats + 1024 * 1024\<rparr>)"
    by (rule t)
       (simp_all add: budget_fields budget_paths budget_stats_def MAX_TOTAL_SIZE_BYTES_def
          MAX_FILES_def)
  then show ?thesis
    by (simp add: v local_query_def MAX_TOTAL_SIZE_BYTES_def with_file_def file_node_def new_FileSystemNode_def
          budget_fields budget_paths budget_stats_def)
qed

subsection \<open>The file-count budget\<close>

lemma processFile_count_exceeded:
  assumes "fs_stat e p = Some \<lparr>st_kind = k, st_size = sz\<rparr>"
    "total_size st + sz \<le> MAX_TOTAL_SIZE_BYTES" "\<not> total_files st < MAX_FILES"
  shows "processFile e p parent st lp
         = Inr (parent, st\<lparr>total_files := total_files st + 1, total_size := total_size st + sz\<rparr>)"
  using assms by (simp add: processFile_def Let_def)

lemma with_file_fields [simp]:
  "path (with_file parent child) = path parent"
  "ntype (with_file parent child) = ntype parent"
  "file_count (with_file parent child) = file_count parent + 1"
  "children (with_file parent child) = children parent @ [child]"
  by (simp_all add: with_file_def)

lemma flat_loop:
  assumes "\<forall>d\<in>set es. plain_file e q (path node) d sz"
    "distinct (map (\<lambda>d. path_join e [path node, d_name d]) es)"
    "\<forall>d\<in>set es. path_join e [path node, d_name d] \<notin> visited st"
    "total_size st + length es * sz \<le> MAX_TOTAL_SIZE_BYTES"
  shows "\<exists>node' st'. processEntries e q node st es = Inr (node', st')
           \<and> file_count node' = file_count node + min (length es) (MAX_FILES - total_files st)
           \<and> length (filter is_file (children node'))
               = length (filter is_file (children node)) + min (length es) (MAX_FILES - total_files st)
           \<and> ntype node' = ntype node"
  using assms
proof (induction es arbitrary: node st)
  case Nil
  then show ?case by simp
next
  case (Cons d rest)
  let ?p = "path_join e [path node, d_name d]"
  let ?st1 = "st\<lparr>visited := insert ?p (visited st)\<rparr>"
  let ?st2 = "?st1\<lparr>total_files := total_files ?st1 + 1, total_size := total_size ?st1 + sz\<rparr>"
  have pf: "plain_file e q (path node) d sz" using Cons.prems(1) by simp
  then have stat: "fs_stat e ?p = Some \<lparr>st_kind = IsFile, st_size = sz\<rparr>"
    by (simp add: plain_file_def)
  have r: "resolveEntry e q node st d = AFile ?p ?st1"
    using resolveEntry_plain_file[OF pf] Cons.prems(3) by simp
  have size_ok: "total_size ?st1 + sz \<le> MAX_TOTAL_SIZE_BYTES"
    using Cons.prems(4) by simp
  have rest_fresh: "\<forall>d\<in>set rest. path_join e [path node, d_name d] \<notin> visited ?st2"
    using Cons.prems(2,3) by (fastforce simp: image_iff)
  have rest_size: "total_size ?st2 + length rest * sz \<le> MAX_TOTAL_SIZE_BYTES"
    using Cons.prems(4) by simp
  show ?case
  proof (cases "total_files st < MAX_FILES")
    case True
    let ?n1 = "with_file node (file_node e (local_path q) ?p sz node)"
    have f: "processFile e ?p node ?st1 (local_path q) = Inr (?n1, ?st2)"
      using processFile_admitted[OF stat size_ok] True by simp
    have "\<exists>node' st'. processEntries e q ?n1 ?st2 rest = Inr (node', st')
           \<and> file_count node' = file_count ?n1 + min (length rest) (MAX_FILES - total_files ?st2)
           \<and> length (filter is_file (children node'))
               = length (filter is_file (children ?n1)) + min (length rest) (MAX_FILES - total_files ?st2)
           \<and> ntype node' = ntype ?n1"
      using Cons.prems(1,2) rest_fresh rest_size by (intro Cons.IH) simp_all
    then obtain node' st' where
      pe: "processEntries e q ?n1 ?st2 rest = Inr (node', st')"
      and fc: "file_count node' = file_count ?n1 + min (length rest) (MAX_FILES - total_files ?st2)"
      and ch: "length (filter is_file (children node'))
               = length (filter is_file (children ?n1)) + min (length rest) (MAX_FILES - total_files ?st2)"
      and ty: "ntype node' = ntype ?n1"
      by blast
    have isf: "is_file (file_node e (local_path q) ?p sz node)"
      by (simp add: file_node_def is_file_def)
    have ar: "1 + min (length rest) (MAX_FILES - (total_files st + 1))
              = min (length (d # rest)) (MAX_FILES - total_files st)"
      using True by (simp only: length_Cons)
    have "processEntries e q node st (d # rest) = Inr (node', st')"
      using pe f by (simp add: r)
    moreover have "file_count node' = file_count node + min (length (d # rest)) (MAX_FILES - total_files st)"
      using fc ar by simp
    moreover have "length (filter is_file (children node'))
        = length (filter is_file (children node)) + min (length (d # rest)) (MAX_FILES - total_files st)"
      using ch ar isf by simp
    moreover have "ntype node' = ntype node" using ty by simp
    ultimately show ?thesis by blast
  next
    case False
    have f: "processFile e ?p node ?st1 (local_path q) = Inr (node, ?st2)"
      using processFile_count_exceeded[OF stat size_ok] False by simp
    have "\<exists>node' st'. processEntries e q node ?st2 rest = Inr (node', st')
           \<and> file_count node' = file_count node + min (length rest) (MAX_FILES - total_files ?st2)
           \<and> length (filter is_file (children node'))
               = length (filter is_file (children node)) + min (length rest) (MAX_FILES - total_files ?st2)
           \<and> ntype node' = ntype node"
      using Cons.prems(1,2) rest_fresh rest_size by (intro Cons.IH) simp_all
    then show ?thesis
      using False by (auto simp: r f)
  qed
qed

lemma resolveEntry_counters:
  "resolveEntry e q node st d = Skip s \<Longrightarrow> total_files s = total_files st"
  "resolveEntry e q node st d = AFile tp s \<Longrightarrow> total_files s = total_files st"
  "resolveEntry e q node st d = ADirectory tp sp s \<Longrightarrow> total_files s = total_files st"
  by (auto simp: resolveEntry_def Let_def split: if_splits option.splits)

lemma processNode_count_reached:
  "MAX_FILES \<le> total_files st \<Longrightarrow> processNode e q node st = Inr (node, st)"
  by (simp add: processNode.simps limitExceeded_def)

lemma descendants_add_fresh_directory:
  "filter is_file (descendants (add_directory node (child_directory_node e q node tp sp)))
     = filter is_file (descendants node)"
  by (simp add: add_directory_def child_directory_node_def descendants_children[of node]
        is_file_def split: option.splits)

lemma count_reached_loop:
  assumes "MAX_FILES \<le> total_files st" "processEntries e q node st es = Inr (node', st')"
  shows "filter is_file (descendants node') = filter is_file (descendants node)
         \<and> MAX_FILES \<le> total_files st'"
  using assms
proof (induction es arbitrary: node st)
  case Nil
  then show ?case by simp
next
  case (Cons d rest)
  show ?case
  proof (cases "resolveEntry e q node st d")
    case (Skip s1)
    with Cons.prems resolveEntry_counters(1)[OF Skip] Cons.IH[of s1 node] show ?thesis by simp
  next
    case (Throw err)
    with Cons.prems show ?thesis by simp
  next
    case (AFile tp s1)
    have c: "MAX_FILES \<le> total_files s1"
      using resolveEntry_counters(2)[OF AFile] Cons.prems(1) by simp
    from Cons.prems(2) AFile obtain n1 s2 where
      pf: "processFile e tp node s1 (local_path q) = Inr (n1, s2)"
      and r: "processEntries e q n1 s2 rest = Inr (node', st')"
      by (auto split: sum.splits)
    from processFile_count_reached[OF c pf] have "n1 = node" "MAX_FILES \<le> total_files s2"
      by simp_all
    with Cons.IH[of s2 node] r show ?thesis by simp
  next
    case (ADirectory tp sp s1)
    have c: "MAX_FILES \<le> total_files s1"
      using resolveEntry_counters(3)[OF ADirectory] Cons.prems(1) by simp
    from Cons.prems(2) ADirectory processNode_count_reached[OF c]
    have r: "processEntries e q (add_directory node (child_directory_node e q node tp sp)) s1 rest
             = Inr (node', st')"
      by simp
    from Cons.IH[OF c r] show ?thesis
      by (simp add: descendants_add_fresh_directory)
  qed
qed


lemma sorted_file_children:
  assumes "sortChildren e node = Inr node'"
  shows "file_count node' = file_count node
         \<and> length (filter is_file (children node')) = length (filter is_file (children node))"
proof -
  from assms have n': "node' = with_children node (array_sort (compareChildren e) (children node))"
    by (auto simp: sortChildren_def split: if_splits)
  have "mset (children node') = mset (children node)"
    by (simp add: n' with_children_def mset_array_sort)
  then have "length (filter is_file (children node')) = length (filter is_file (children node))"
    unfolding length_filter_sum by (rule sum_list_mset_cong)
  then show ?thesis by (simp add: n' with_children_def)
qed

lemma split_char_none: "sep \<notin> set s \<Longrightarrow> split_char sep s = [s]"
  by (induction s) auto

lemma flat_fields:
  "path_join flat_env = posix_join"
  "path_relative flat_env = posix_relative"
  "path_isAbsolute flat_env = (\<lambda>p. startsWith p ''/'')"
  "fs_readdir flat_env ''/flat'' = Some flat_entries"
  by (simp_all add: flat_env_def node_posix_def)

lemma flat_join:
  "path_join flat_env [''/flat'', replicate (Suc i) CHR ''f'']
     = ''/flat/'' @ replicate (Suc i) CHR ''f''"
  by (simp add: flat_fields posix_join_def segments_def startsWith_def split_char_none)

lemma flat_plain_file:
  assumes "d \<in> set flat_entries"
  shows "plain_file flat_env (local_query ''/flat'') ''/flat'' d 1"
proof -
  from assms obtain i where d: "d = \<lparr>d_name = replicate (Suc i) CHR ''f'', d_isSymbolicLink = False\<rparr>"
    by (auto simp: flat_entries_def simp del: replicate_Suc)
  let ?n = "replicate (Suc i) CHR ''f''"
  let ?p = "''/flat/'' @ ?n"
  have r: "path_relative flat_env ''/flat'' ?p = ?n"
    by (simp add: flat_fields posix_relative_def segments_def split_char_none)
  have s: "fs_stat flat_env ?p = Some \<lparr>st_kind = IsFile, st_size = 1\<rparr>"
    by (simp add: flat_env_def startsWith_def)
  have x: "\<not> startsWith ?n ''..''" "\<not> path_isAbsolute flat_env ?n"
    by (simp_all add: startsWith_def flat_fields)
  have "\<not> shouldExclude flat_env ?p ''/flat'' []"
    unfolding shouldExclude_def Let_def r using x by simp
  then show ?thesis
    unfolding plain_file_def d Dirent.simps flat_join using s
    by (simp add: local_query_def)
qed

lemma flat_distinct:
  "distinct (map (\<lambda>d. path_join flat_env [''/flat'', d_name d]) flat_entries)"
proof -
  have i: "inj_on (\<lambda>i. ''/flat/'' @ replicate (Suc i) CHR ''f'') A" for A
    by (rule inj_onI) (metis length_replicate nat.inject same_append_eq)
  have "map (\<lambda>d. path_join flat_env [''/flat'', d_name d]) flat_entries
        = map (\<lambda>i. ''/flat/'' @ replicate (Suc i) CHR ''f'') [0..<MAX_FILES + 5]"
    unfolding flat_entries_def map_map comp_def Dirent.simps flat_join by (rule refl)
  then show ?thesis
    using i by (simp only: distinct_map distinct_upt simp_thms)
qed

text \<open>
  Claim C3: a flat directory of \<open>MAX_FILES + 5\<close> files of one size, none filtered and the
  total size within its budget, gives a root whose \<open>file_count\<close> is exactly \<open>MAX_FILES\<close>
  (and which has that many \<open>FILE\<close> children). Once the running file counter has reached
  \<open>MAX_FILES\<close>, \<open>processNode\<close> returns its node as it is, \<open>processFile\<close> appends
  nothing, and the rest of any directory's loop leaves the \<open>FILE\<close> nodes of the tree as
  they are.
\<close>

theorem C3_file_count_budget:
  "(fs_readdir e p = Some entries \<and> length entries = MAX_FILES + 5
      \<and> (\<forall>d\<in>set entries. plain_file e q p d sz)
      \<and> distinct (map (\<lambda>d. path_join e [p, d_name d]) entries)
      \<and> (MAX_FILES + 5) * sz \<le> MAX_TOTAL_SIZE_BYTES
    \<longrightarrow> (\<exists>root' st'. processNode e q (new_FileSystemNode nm DIRECTORY ps p) new_FileSystemStats
                          = Inr (root', st')
            \<and> file_count root' = MAX_FILES
            \<and> length (filter is_file (children root')) = MAX_FILES))
   \<and> (MAX_FILES \<le> total_files st
    \<longrightarrow> processNode e q node st = Inr (node, st)
        \<and> (\<forall>n' s'. processFile e fp node st lp = Inr (n', s') \<longrightarrow> n' = node)
        \<and> (\<forall>n' s'. processEntries e q node st es = Inr (n', s')
              \<longrightarrow> filter is_file (descendants n') = filter is_file (descendants node)
                  \<and> MAX_FILES \<le> total_files s'))"
proof (intro conjI impI)
  assume a: "fs_readdir e p = Some entries \<and> length entries = MAX_FILES + 5
      \<and> (\<forall>d\<in>set entries. plain_file e q p d sz)
      \<and> distinct (map (\<lambda>d. path_join e [p, d_name d]) entries)
      \<and> (MAX_FILES + 5) * sz \<le> MAX_TOTAL_SIZE_BYTES"
  let ?root = "new_FileSystemNode nm DIRECTORY ps p"
  have f: "path ?root = p" "ntype ?root = DIRECTORY" "file_count ?root = 0"
    "children ?root = []" "depth ?root = 0"
    by (simp_all add: new_FileSystemNode_def)
  have "\<exists>node' st'. processEntries e q ?root new_FileSystemStats entries = Inr (node', st')
           \<and> file_count node' = file_count ?root
                + min (length entries) (MAX_FILES - total_files new_FileSystemStats)
           \<and> length (filter is_file (children node'))
               = length (filter is_file (children ?root))
                 + min (length entries) (MAX_FILES - total_files new_FileSystemStats)
           \<and> ntype node' = ntype ?root"
    using a by (intro flat_loop[where sz = sz]) (simp_all add: f new_FileSystemStats_def)
  then obtain n1 s1 where
    pe: "processEntries e q ?root new_FileSystemStats entries = Inr (n1, s1)"
    and c: "file_count n1 = MAX_FILES" "length (filter is_file (children n1)) = MAX_FILES"
    and t: "ntype n1 = DIRECTORY"
    using a by (auto simp: f new_FileSystemStats_def)
  from t obtain n2 where so: "sortChildren e n1 = Inr n2"
    by (simp add: sortChildren_def)
  have lim: "\<not> limitExceeded new_FileSystemStats (depth ?root)"
    by (simp add: limitExceeded_def new_FileSystemStats_def f MAX_FILES_def
          MAX_TOTAL_SIZE_BYTES_def)
  have "processNode e q ?root new_FileSystemStats = Inr (n2, s1)"
    using lim a pe so by (simp add: processNode.simps[of e q ?root] f)
  then show "\<exists>root' st'. processNode e q ?root new_FileSystemStats = Inr (root', st')
            \<and> file_count root' = MAX_FILES
            \<and> length (filter is_file (children root')) = MAX_FILES"
    using sorted_file_children[OF so] c by simp
next
  assume "MAX_FILES \<le> total_files st"
  then show "processNode e q node st = Inr (node, st)"
    by (rule processNode_count_reached)
next
  assume "MAX_FILES \<le> total_files st"
  then show "\<forall>n' s'. processFile e fp node st lp = Inr (n', s') \<longrightarrow> n' = node"
    using processFile_count_reached by blast
next
  assume "MAX_FILES \<le> total_files st"
  then show "\<forall>n' s'. processEntries e q node st es = Inr (n', s')
              \<longrightarrow> filter is_file (descendants n') = filter is_file (descendants node)
                  \<and> MAX_FILES \<le> total_files s'"
    using count_reached_loop by blast
qed


theorem C3_file_count_budget_witness:
  "length flat_entries = MAX_FILES + 5
   \<and> (\<exists>root' st'. processNode flat_env (local_query ''/flat'')
                      (new_FileSystemNode ''flat'' DIRECTORY [] ''/flat'') new_FileSystemStats
                    = Inr (root', st')
         \<and> file_count root' = MAX_FILES
         \<and> length (filter is_file (children root')) = MAX_FILES)
   \<and> processNode flat_env (local_query ''/flat'')
        (new_FileSystemNode ''flat'' DIRECTORY [] ''/flat'')
        \<lparr>visited = {}, total_files = MAX_FILES, total_size = 0\<rparr>
       = Inr (new_FileSystemNode ''flat'' DIRECTORY [] ''/flat'',
              \<lparr>visited = {}, total_files = MAX_FILES, total_size = 0\<rparr>)"
proof -
  have l: "length flat_entries = MAX_FILES + 5"
    by (simp add: flat_entries_def)
  have b: "(MAX_FILES + 5) * 1 \<le> MAX_TOTAL_SIZE_BYTES"
    by (simp add: MAX_FILES_def MAX_TOTAL_SIZE_BYTES_def)
  have pl: "\<forall>d\<in>set flat_entries. plain_file flat_env (local_query ''/flat'') ''/flat'' d 1"
    using flat_plain_file by blast
  note t = C3_file_count_budget [where e = flat_env and q = "local_query ''/flat''"
      and p = "''/flat''" and entries = flat_entries and sz = 1 and nm = "''flat''"
      and ps = "[]" and st = "\<lparr>visited = {}, total_files = MAX_FILES, total_size = 0\<rparr>"
      and node = "new_FileSystemNode ''flat'' DIRECTORY [] ''/flat''"]
  show ?thesis
    using t l b pl flat_distinct flat_fields(4) by simp
qed

section \<open>A notebook that is not JSON\<close>

lemma invalid_notebook_content:
  assumes "isTextFile e p" "path_extname e p = ''.ipynb''"
    "fs_readFileSync e p ''utf-8'' = Inr raw" "JSON_parse e raw = None"
  shows "file_content e p = notebook_error_text p"
  using assms
  by (simp add: file_content_def processNotebook_def notebook_error_text_def exn_toString_def)

lemma notebook_fields:
  "path_join notebook_env = posix_join"
  "path_posix_join notebook_env = posix_join"
  "path_extname notebook_env = posix_extname"
  "path_basename notebook_env = posix_basename"
  "path_relative notebook_env = posix_relative"
  "fs_access notebook_env ''/repo/nb.ipynb''"
  "\<not> fs_access notebook_env ''/repo/nb.ipynb/.gitingest''"
  "fs_stat notebook_env ''/repo/nb.ipynb'' = Some \<lparr>st_kind = IsFile, st_size = 9\<rparr>"
  "fs_readFileSync notebook_env ''/repo/nb.ipynb'' enc = Inr ''{not json''"
  "JSON_parse notebook_env raw = None"
  "toLocaleString notebook_env = show_nat"
  by (simp_all add: notebook_env_def with_files_def node_posix_def)

lemma notebook_paths:
  "posix_join [''nb.ipynb''] = ''nb.ipynb''"
  "posix_join [''/repo'', ''nb.ipynb''] = ''/repo/nb.ipynb''"
  "posix_join [''/repo/nb.ipynb'', ''.gitingest''] = ''/repo/nb.ipynb/.gitingest''"
  "posix_extname ''/repo/nb.ipynb'' = ''.ipynb''"
  "posix_basename ''/repo/nb.ipynb'' = ''nb.ipynb''"
  "posix_relative ''/repo'' ''/repo/nb.ipynb'' = ''nb.ipynb''"
  by (simp_all add: posix_join_def posix_extname_def posix_basename_def posix_relative_def
        segments_def startsWith_def)

lemma notebook_is_text: "isTextFile notebook_env ''/repo/nb.ipynb''"
  by (simp add: isTextFile_def notebook_env_def with_files_def node_posix_def file_bytes_def
        getEncodingList_def)

lemma notebook_query_fields:
  "local_path notebook_query = ''/repo''"
  "subpath notebook_query = ''/nb.ipynb''"
  by (simp_all add: notebook_query_def local_query_def)

lemma notebook_target:
  "path_join notebook_env [local_path notebook_query,
     path_posix_join notebook_env
       (filter (\<lambda>s. s \<noteq> []) (split_char CHR ''/'' (subpath notebook_query)))]
   = ''/repo/nb.ipynb''"
  by (simp add: notebook_query_fields notebook_fields notebook_paths)

lemma notebook_query_unchanged:
  "fst (ingestQuery notebook_env notebook_query) = notebook_query"
  by (simp add: ingestQuery_def Let_def notebook_query_fields applyGitingestFile_def
        notebook_fields notebook_paths)

text \<open>
  Claim C9, as stated, has the ingestion abort when the only requested resource is a
  notebook whose text is not JSON. It does not: \<open>ingestQuery\<close> reads the notebook through
  the \<open>content\<close> getter, whose \<open>try\<close>/\<open>catch\<close> turns the \<open>InvalidNotebookError\<close> into text,
  and the digest is returned with that text as the file's content.
\<close>

theorem C9_counterexample:
  "snd (ingestQuery notebook_env notebook_query)
     = Inr (formatNode notebook_env notebook_node notebook_query)
   \<and> snd (snd (formatNode notebook_env notebook_node notebook_query))
     = ''### nb.ipynb'' @ nl @ ''```ipynb'' @ nl
       @ ''Error processing notebook: InvalidNotebookError: Invalid JSON in notebook: /repo/nb.ipynb''
       @ nl @ ''```'' @ nl"
proof -
  have c: "file_content notebook_env ''/repo/nb.ipynb'' = notebook_error_text ''/repo/nb.ipynb''"
    by (rule invalid_notebook_content[OF notebook_is_text])
       (simp_all add: notebook_fields notebook_paths)
  have "snd (ingestQuery notebook_env notebook_query)
        = Inr (formatNode notebook_env notebook_node notebook_query)"
    using c
    by (simp add: ingestQuery_def Let_def notebook_query_fields applyGitingestFile_def
          notebook_fields notebook_paths ingestTarget_def notebook_node_def
          notebook_error_text_def)
  moreover have "snd (snd (formatNode notebook_env notebook_node notebook_query))
     = ''### nb.ipynb'' @ nl @ ''```ipynb'' @ nl
       @ ''Error processing notebook: InvalidNotebookError: Invalid JSON in notebook: /repo/nb.ipynb''
       @ nl @ ''```'' @ nl"
    using c
    by (simp add: formatNode_def Let_def notebook_node_def notebook_error_text_def
          split: prod.splits)
  ultimately show ?thesis by simp
qed

text \<open>
  Claim C9, amended: when the only requested resource is a notebook file that reads as
  text and whose contents are not valid JSON, the ingestion returns the digest of the
  file, and the file's content in it is the text \<open>Error processing notebook:
  InvalidNotebookError: Invalid JSON in notebook:\<close> followed by the path.
\<close>

theorem C9_invalid_notebook_is_substituted:
  assumes "tp = path_join e [local_path q,
                  path_posix_join e (filter (\<lambda>s. s \<noteq> []) (split_char CHR ''/'' (subpath q)))]"
    and "fs_access e tp" "fs_stat e tp = Some st" "st_kind st = IsFile"
    and "isTextFile e tp" "path_extname e tp = ''.ipynb''"
    and "fs_readFileSync e tp ''utf-8'' = Inr raw" "JSON_parse e raw = None"
  shows "file_content e tp = notebook_error_text tp
         \<and> snd (ingestQuery e q)
             = Inr (formatNode e
                      (FileSystemNode (path_basename e tp) FILE
                         (path_relative e (local_path (fst (ingestQuery e q))) tp) tp
                         (st_size st) 1 0 0 [])
                      (fst (ingestQuery e q)))"
proof -
  have c: "file_content e tp = notebook_error_text tp"
    using assms(5-8) by (rule invalid_notebook_content)
  then have n: "file_content e tp \<noteq> []"
    by (simp add: notebook_error_text_def)
  show ?thesis
    using c n assms(2-4)
    by (simp add: ingestQuery_def Let_def ingestTarget_def assms(1)[symmetric])
qed

theorem C9_invalid_notebook_is_substituted_witness:
  "file_content notebook_env ''/repo/nb.ipynb'' = notebook_error_text ''/repo/nb.ipynb''
   \<and> snd (ingestQuery notebook_env notebook_query)
     = Inr (formatNode notebook_env notebook_node notebook_query)"
  using C9_invalid_notebook_is_substituted [where e = notebook_env and q = notebook_query
          and tp = "''/repo/nb.ipynb''" and st = "\<lparr>st_kind = IsFile, st_size = 9\<rparr>"
          and raw = "''{not json''", OF notebook_target[symmetric]]
        notebook_is_text
  by (simp add: notebook_fields notebook_paths notebook_query_unchanged notebook_node_def
        notebook_query_fields)

section \<open>The exclusion test\<close>

lemma shouldExclude_loop_iff:
  "shouldExclude_loop e rel pats
     \<longleftrightarrow> (\<exists>p\<in>set pats. p \<noteq> [] \<and> matchPattern e rel p \<noteq> Some False)"
  by (induction pats) (auto split: option.splits bool.splits)

lemma matchPattern_stat:
  "matchPattern (e\<lparr>fs_stat := f\<rparr>) s p = matchPattern e s p"
  by (simp add: matchPattern_def)

lemma shouldExclude_loop_stat:
  "shouldExclude_loop (e\<lparr>fs_stat := f\<rparr>) rel pats = shouldExclude_loop e rel pats"
  by (simp add: shouldExclude_loop_iff matchPattern_stat)

text \<open>
  Claim C7, as stated, has \<open>isExcluded\<close> test a directory's relative path a second time
  with a trailing separator. \<open>shouldExclude\<close> is not told whether the path is a directory
  and tests the relative path alone: the directory /repo/build is excluded by the pattern
  \<open>build/\<close> in the specification's words, and not by the code.
\<close>

theorem C7_counterexample:
  "fs_stat build_env ''/repo/build'' = Some \<lparr>st_kind = IsDirectory, st_size = 4096\<rparr>
   \<and> isExcluded_spec build_env ''/repo/build'' ''/repo'' [''build/'']
   \<and> \<not> shouldExclude build_env ''/repo/build'' ''/repo'' [''build/'']"
proof -
  have f: "path_relative build_env = posix_relative"
    "path_isAbsolute build_env = (\<lambda>p. startsWith p ''/'')"
    "regexp_test build_env = anchored_test"
    "fs_stat build_env ''/repo/build'' = Some \<lparr>st_kind = IsDirectory, st_size = 4096\<rparr>"
    by (simp_all add: build_env_def with_files_def node_posix_def)
  have r: "posix_relative ''/repo'' ''/repo/build'' = ''build''"
    by (simp add: posix_relative_def segments_def)
  have m: "matchPattern build_env ''build'' ''build/'' = Some False"
    by (simp add: matchPattern_def f replace_char_def anchored_test_def backslash_def)
  have "isExcluded_spec build_env ''/repo/build'' ''/repo'' [''build/'']"
    by (simp add: isExcluded_spec_def f r startsWith_def)
  moreover have "\<not> shouldExclude build_env ''/repo/build'' ''/repo'' [''build/'']"
    by (simp add: shouldExclude_def f r startsWith_def m)
  ultimately show ?thesis using f(4) by simp
qed

subsection \<open>The regular expression of a pattern\<close>

text \<open>
  The three replacements of \<open>matchPattern\<close> act character by character: \<open>.\<close> becomes
  \<open>\.\<close>, \<open>*\<close> becomes \<open>.*\<close>, \<open>?\<close> becomes \<open>.\<close>; the later replacements do not touch
  what the earlier ones wrote.
\<close>

lemma replace_char_Nil: "replace_char c r [] = []"
  by (simp add: replace_char_def)

lemma replace_char_Cons:
  "replace_char c r (x # xs) = (if x = c then r else [x]) @ replace_char c r xs"
  by (simp add: replace_char_def)

lemma replace_char_append:
  "replace_char c r (xs @ ys) = replace_char c r xs @ replace_char c r ys"
  by (simp add: replace_char_def)

lemma regExpPattern_source:
  "replace_char CHR ''?'' ''.'' (replace_char CHR ''*'' ''.*''
     (replace_char CHR ''.'' [backslash, CHR ''.''] p))
   = concat (map glob_source p)"
  by (induction p)
     (simp_all add: replace_char_Nil replace_char_Cons replace_char_append glob_source_def
        backslash_def)

lemma glob_source_no_star:
  "concat (map glob_source p) = x # r \<Longrightarrow> x \<noteq> CHR ''*''"
  by (cases p) (auto simp: glob_source_def backslash_def split: if_splits)

lemma rx_parse_literal:
  assumes "c \<notin> set ''*+?()[]{}|^$''" "c \<noteq> backslash" "\<And>x r. rest = x # r \<Longrightarrow> x \<noteq> CHR ''*''"
  shows "rx_parse (c # rest)
         = map_option ((#) (if c = CHR ''.'' then RxAny else RxChar c, False)) (rx_parse rest)"
proof (cases rest)
  case Nil
  with assms show ?thesis by simp
next
  case (Cons d rest')
  with assms have "d \<noteq> CHR ''*''" by simp
  with assms Cons show ?thesis by (simp add: Let_def)
qed

lemma rx_parse_escaped_dot:
  assumes "\<And>x r. rest = x # r \<Longrightarrow> x \<noteq> CHR ''*''"
  shows "rx_parse (backslash # CHR ''.'' # rest)
         = map_option ((#) (RxChar CHR ''.'', False)) (rx_parse rest)"
proof (cases rest)
  case Nil
  then show ?thesis by (simp add: is_alnum_def)
next
  case (Cons d rest')
  with assms have "d \<noteq> CHR ''*''" by simp
  with Cons show ?thesis by (simp add: is_alnum_def)
qed

lemma rx_parse_any_star:
  "rx_parse (CHR ''.'' # CHR ''*'' # rest) = map_option ((#) (RxAny, True)) (rx_parse rest)"
  by (simp add: backslash_def)

lemma rx_parse_glob:
  "list_all (\<lambda>c. \<not> regexp_syntax_char c) p
   \<Longrightarrow> rx_parse (concat (map glob_source p)) = Some (map glob_atom p)"
proof (induction p)
  case Nil
  show ?case by simp
next
  case (Cons c p)
  define rest where "rest = concat (map glob_source p)"
  have ih: "rx_parse rest = Some (map glob_atom p)"
    and c: "\<not> regexp_syntax_char c"
    using Cons by (simp_all add: rest_def)
  have ns: "\<And>x r. rest = x # r \<Longrightarrow> x \<noteq> CHR ''*''"
    unfolding rest_def by (rule glob_source_no_star)
  have goal: "rx_parse (glob_source c @ rest) = Some (glob_atom c # map glob_atom p)"
  proof (cases "c = CHR ''.''")
    case True
    then have "glob_source c = [backslash, CHR ''.'']" "glob_atom c = (RxChar CHR ''.'', False)"
      by (simp_all add: glob_source_def glob_atom_def)
    then show ?thesis
      using rx_parse_escaped_dot [of rest] ns ih by simp
  next
    case dot: False
    show ?thesis
    proof (cases "c = CHR ''*''")
      case True
      then have "glob_source c = ''.*''" "glob_atom c = (RxAny, True)"
        by (simp_all add: glob_source_def glob_atom_def)
      then show ?thesis
        using rx_parse_any_star [of rest] ih by simp
    next
      case star: False
      show ?thesis
      proof (cases "c = CHR ''?''")
        case True
        then have "glob_source c = ''.''" "glob_atom c = (RxAny, False)"
          by (simp_all add: glob_source_def glob_atom_def)
        moreover have "rx_parse (CHR ''.'' # rest) = map_option ((#) (RxAny, False)) (rx_parse rest)"
          using rx_parse_literal [of "CHR ''.''" rest] ns by (simp add: backslash_def)
        ultimately show ?thesis
          using ih by simp
      next
        case False
        have "c \<notin> set ''*+?()[]{}|^$''" "c \<noteq> backslash"
          using c star False by (auto simp: regexp_syntax_char_def)
        then have "rx_parse (c # rest) = map_option ((#) (RxChar c, False)) (rx_parse rest)"
          using rx_parse_literal [of c rest] ns dot by simp
        moreover have "glob_source c = [c]" "glob_atom c = (RxChar c, False)"
          using dot star False by (simp_all add: glob_source_def glob_atom_def)
        ultimately show ?thesis
          using ih by simp
      qed
    qed
  qed
  then show ?case by (simp add: rest_def)
qed

lemma rx_match_glob:
  "list_all plain_path_char s \<Longrightarrow> rx_match (map glob_atom p) s = glob_match p s"
proof (induction p s rule: glob_match.induct)
  case (1 s)
  show ?case by simp
next
  case (2 p ps)
  then show ?case by (simp add: glob_atom_def)
next
  case (3 p ps c cs)
  then have ok: "rx_atom_ok RxAny c"
    by (simp add: rx_atom_ok_def plain_path_char_def Let_def)
  show ?case
  proof (cases "p = CHR ''*''")
    case True
    with 3 ok show ?thesis by (simp add: glob_atom_def)
  next
    case False
    with 3 ok show ?thesis by (auto simp: glob_atom_def rx_atom_ok_def)
  qed
qed


lemma anchored_source:
  "anchored_test (CHR ''^'' # src @ ''$'') s = map_option (\<lambda>r. rx_match r s) (rx_parse src)"
  by (simp add: anchored_test_def butlast_append)

lemma glob_source_ascii:
  "list_all is_ascii p \<Longrightarrow> list_all is_ascii (concat (map glob_source p))"
  by (induction p) (simp_all add: glob_source_def is_ascii_def backslash_def)

lemma matchPattern_glob:
  assumes "regexp_agrees e"
    and "list_all (\<lambda>c. is_ascii c \<and> \<not> regexp_syntax_char c) p"
    and "list_all plain_path_char s"
  shows "matchPattern e s p = Some (glob_match p s)"
proof -
  define src where "src = CHR ''^'' # concat (map glob_source p) @ ''$''"
  have p: "list_all is_ascii p" "list_all (\<lambda>c. \<not> regexp_syntax_char c) p"
    using assms(2) by (simp_all add: list_all_iff)
  have "list_all is_ascii src"
    using glob_source_ascii [OF p(1)] by (simp add: src_def is_ascii_def)
  moreover have "anchored_test src s = Some (glob_match p s)"
    using p(2) assms(3) by (simp add: src_def anchored_source rx_parse_glob rx_match_glob)
  ultimately have "regexp_test e src s = Some (glob_match p s)"
    using assms(1,3) unfolding regexp_agrees_def by blast
  then show ?thesis
    by (simp add: matchPattern_def regExpPattern_source src_def)
qed

lemma startsWith_append:
  "startsWith s (p @ q) \<Longrightarrow> startsWith s p"
proof -
  assume "startsWith s (p @ q)"
  then have "take (length p) (take (length (p @ q)) s) = take (length p) (p @ q)"
    by (simp only: startsWith_def)
  then show ?thesis
    by (simp add: startsWith_def min_def)
qed

lemma shouldExclude_loop_glob:
  assumes "regexp_agrees e"
    and "list_all (list_all (\<lambda>c. is_ascii c \<and> \<not> regexp_syntax_char c)) pats"
    and "list_all plain_path_char rel"
  shows "shouldExclude_loop e rel pats = list_ex (\<lambda>p. p \<noteq> [] \<and> glob_match p rel) pats"
proof -
  have "matchPattern e rel p = Some (glob_match p rel)" if "p \<in> set pats" for p
    using that assms matchPattern_glob [of e p rel] by (simp add: list_all_iff)
  then show ?thesis
    by (auto simp: shouldExclude_loop_iff list_ex_iff)
qed

text \<open>
  Claim C7, amended: the exclusion test computes the path relative to the root and
  returns excluded when the relative path escapes the root (a parent reference, or
  absolute); otherwise it returns true iff some (non-empty) pattern glob-matches the
  relative path: \<open>*\<close> any run of characters, separators included, \<open>?\<close> exactly one
  character, every other character itself, the whole path. A directory is tested like a
  file, with no second test of the relative path with a trailing separator: the answer
  does not depend on what \<open>fs.stat\<close> reports, and for a path that is not a directory (and
  patterns that are not empty) it is the answer of the specification as first worded.

  This is stated for patterns of ASCII characters other than those a regular expression
  reads as syntax and \<open>matchPattern\<close> does not escape (\<open>\ ^ $ + ( ) [ ] { } |\<close>), for
  relative paths of ASCII characters without line breaks, and for relative paths that
  begin with \<open>..\<close> only when they are a parent reference; it says nothing of the other
  inputs.
\<close>

theorem C7_shouldExclude:
  assumes "regexp_agrees e"
    and "list_all (list_all (\<lambda>c. is_ascii c \<and> \<not> regexp_syntax_char c)) pats"
    and "list_all plain_path_char (path_relative e basePath filePath)"
    and "startsWith (path_relative e basePath filePath) ''..''
         \<longrightarrow> path_relative e basePath filePath = ''..''
             \<or> startsWith (path_relative e basePath filePath) ''../''"
  shows "shouldExclude e filePath basePath pats
       = (path_relative e basePath filePath = ''..''
          \<or> startsWith (path_relative e basePath filePath) ''../''
          \<or> path_isAbsolute e (path_relative e basePath filePath)
          \<or> list_ex (\<lambda>p. p \<noteq> [] \<and> glob_match p (path_relative e basePath filePath)) pats)
     \<and> list_all (\<lambda>p. matchPattern e (path_relative e basePath filePath) p
                        = Some (glob_match p (path_relative e basePath filePath))) pats
     \<and> shouldExclude (e\<lparr>fs_stat := f\<rparr>) filePath basePath pats
         = shouldExclude e filePath basePath pats
     \<and> ((case fs_stat e filePath of Some st \<Rightarrow> st_kind st \<noteq> IsDirectory | None \<Rightarrow> True)
          \<and> [] \<notin> set pats
        \<longrightarrow> shouldExclude e filePath basePath pats = isExcluded_spec e filePath basePath pats)"
proof -
  define rel where "rel = path_relative e basePath filePath"
  have esc: "startsWith rel ''..'' \<longleftrightarrow> rel = ''..'' \<or> startsWith rel ''../''"
  proof -
    have "startsWith ''..'' ''..''" by (simp add: startsWith_def)
    moreover have "startsWith rel ''../'' \<Longrightarrow> startsWith rel ''..''"
      using startsWith_append [of rel "''..''" "''/''"] by simp
    ultimately show ?thesis
      using assms(4) unfolding rel_def by auto
  qed
  have loop: "shouldExclude_loop e rel pats = list_ex (\<lambda>p. p \<noteq> [] \<and> glob_match p rel) pats"
    using assms(1,2,3) unfolding rel_def by (rule shouldExclude_loop_glob)
  have a: "shouldExclude e filePath basePath pats
       = (rel = ''..'' \<or> startsWith rel ''../'' \<or> path_isAbsolute e rel
          \<or> list_ex (\<lambda>p. p \<noteq> [] \<and> glob_match p rel) pats)"
    using esc loop by (auto simp: shouldExclude_def Let_def rel_def)
  have b: "list_all (\<lambda>p. matchPattern e rel p = Some (glob_match p rel)) pats"
    using assms(1,2,3) matchPattern_glob [of e _ rel]
    by (simp add: list_all_iff rel_def)
  have c: "shouldExclude (e\<lparr>fs_stat := f\<rparr>) filePath basePath pats
         = shouldExclude e filePath basePath pats"
    by (simp add: shouldExclude_def Let_def shouldExclude_loop_stat)
  have d: "(case fs_stat e filePath of Some st \<Rightarrow> st_kind st \<noteq> IsDirectory | None \<Rightarrow> True)
          \<and> [] \<notin> set pats
        \<longrightarrow> shouldExclude e filePath basePath pats = isExcluded_spec e filePath basePath pats"
  proof
    assume h: "(case fs_stat e filePath of Some st \<Rightarrow> st_kind st \<noteq> IsDirectory | None \<Rightarrow> True)
          \<and> [] \<notin> set pats"
    then have nd: "\<not> (case fs_stat e filePath of Some st \<Rightarrow> st_kind st = IsDirectory | None \<Rightarrow> False)"
      by (simp split: option.splits)
    have "list_ex (\<lambda>p. p \<noteq> [] \<and> glob_match p rel) pats = list_ex (\<lambda>p. glob_match p rel) pats"
    proof -
      have "p \<noteq> []" if "p \<in> set pats" for p
        using that h by metis
      then show ?thesis
        unfolding list_ex_iff by blast
    qed
    then show "shouldExclude e filePath basePath pats = isExcluded_spec e filePath basePath pats"
      using a nd by (simp add: isExcluded_spec_def Let_def rel_def)
  qed
  from a b c d show ?thesis
    unfolding rel_def by blast
qed

theorem C7_shouldExclude_witness:
  "regexp_agrees build_env
   \<and> shouldExclude build_env ''/repo/a.ts'' ''/repo'' [''build/'', ''*.ts'']
   \<and> matchPattern build_env ''a.ts'' ''build/'' = Some False
   \<and> matchPattern build_env ''a.ts'' ''*.ts'' = Some True
   \<and> isExcluded_spec build_env ''/repo/a.ts'' ''/repo'' [''build/'', ''*.ts'']
   \<and> shouldExclude (build_env\<lparr>fs_stat := (\<lambda>p. None)\<rparr>) ''/repo/a.ts'' ''/repo'' [''build/'', ''*.ts'']
   \<and> \<not> shouldExclude build_env ''/repo/axts'' ''/repo'' [''a.ts'']
   \<and> matchPattern build_env ''axts'' ''a.ts'' = Some False
   \<and> shouldExclude build_env ''/x'' ''/repo'' []
   \<and> path_relative build_env ''/repo'' ''/x'' = ''../x''"
proof -
  have f: "path_relative build_env = posix_relative"
    "path_isAbsolute build_env = (\<lambda>p. startsWith p ''/'')"
    "regexp_agrees build_env"
    "fs_stat build_env ''/repo/a.ts'' = Some \<lparr>st_kind = IsFile, st_size = 9\<rparr>"
    by (simp_all add: build_env_def with_files_def node_posix_def regexp_agrees_def)
  have r: "posix_relative ''/repo'' ''/repo/a.ts'' = ''a.ts''"
    "posix_relative ''/repo'' ''/repo/axts'' = ''axts''"
    "posix_relative ''/repo'' ''/x'' = ''../x''"
    by (simp_all add: posix_relative_def segments_def)
  note t = C7_shouldExclude [where e = build_env and basePath = "''/repo''"]
  have 1: "shouldExclude build_env ''/repo/a.ts'' ''/repo'' [''build/'', ''*.ts'']
     \<and> matchPattern build_env ''a.ts'' ''build/'' = Some False
     \<and> matchPattern build_env ''a.ts'' ''*.ts'' = Some True
     \<and> isExcluded_spec build_env ''/repo/a.ts'' ''/repo'' [''build/'', ''*.ts'']
     \<and> shouldExclude (build_env\<lparr>fs_stat := (\<lambda>p. None)\<rparr>) ''/repo/a.ts'' ''/repo'' [''build/'', ''*.ts'']"
    using t [where filePath = "''/repo/a.ts''" and pats = "[''build/'', ''*.ts'']"
              and f = "\<lambda>p. None"]
    by (auto simp add: f r startsWith_def regexp_syntax_char_def backslash_def plain_path_char_def is_ascii_def)
  have 2: "\<not> shouldExclude build_env ''/repo/axts'' ''/repo'' [''a.ts'']
     \<and> matchPattern build_env ''axts'' ''a.ts'' = Some False"
    using t [where filePath = "''/repo/axts''" and pats = "[''a.ts'']"]
    by (simp add: f r startsWith_def regexp_syntax_char_def backslash_def plain_path_char_def is_ascii_def)
  have 3: "shouldExclude build_env ''/x'' ''/repo'' []"
    using t [where filePath = "''/x''" and pats = "[]"]
    by (simp add: f r startsWith_def plain_path_char_def)
  from 1 2 3 f(3) show ?thesis by (simp add: f(1,2,4) r)
qed

section \<open>The include set\<close>

lemma shouldInclude_empty: "\<not> shouldInclude e p b []"
  by (simp add: shouldInclude_def Let_def)

lemma resolveEntry_empty_include:
  assumes "include_patterns q = Some []"
  shows "(\<exists>s. resolveEntry e q node st d = Skip s) \<or> (\<exists>err. resolveEntry e q node st d = Throw err)"
  using assms by (simp add: resolveEntry_def Let_def shouldInclude_empty split: option.splits)

lemma processEntries_empty_include:
  assumes "include_patterns q = Some []" "processEntries e q node st es = Inr (node', st')"
  shows "node' = node"
  using assms(2)
proof (induction es arbitrary: st)
  case Nil
  then show ?case by simp
next
  case (Cons d rest)
  from resolveEntry_empty_include[OF assms(1), of e node st d] show ?case
  proof (elim disjE exE)
    fix s assume "resolveEntry e q node st d = Skip s"
    with Cons show ?thesis by simp
  next
    fix err assume "resolveEntry e q node st d = Throw err"
    with Cons.prems show ?thesis by simp
  qed
qed

lemma set_fold_set_delete: "set (fold set_delete xs ys) = set ys - set xs"
  by (induction xs arbitrary: ys) (auto simp: set_delete_def)

lemma parseQuery_override:
  assumes "parseQuery e defaults q m inc ign = Inr q'" "include_patterns q' = Some ps"
  shows "set (ignore_patterns q') \<inter> set ps = {}"
  using assms
  by (auto simp: parseQuery_def createIngestionQuery_def Let_def set_fold_set_delete
           split: if_splits sum.splits)

text \<open>
  Claim C5: a path is kept iff it is not excluded and the include set is absent or empty or
  has a pattern matching the path. On an empty include set the code differs: the guard
  \<open>query.include_patterns && !shouldInclude(...)\<close> holds for an empty \<open>Set\<close>, which is an
  object and truthy, and \<open>shouldInclude\<close> of no patterns is false, so every entry is
  skipped. The command line passes \<open>new Set([])\<close> when no include option is given, and
  \<open>parseQuery\<close> hands it on: the directory of the example then yields a root without
  children, where the query without an include set yields both files.
\<close>

theorem C5_empty_include_set:
  "parseQuery node_posix [] (local_query ''/repo'') MAX_FILE_SIZE
       (Some (PatternSet [])) (Some (PatternSet []))
     = Inr ((local_query ''/repo'')\<lparr>include_patterns := Some []\<rparr>)
   \<and> processNode example_env ((local_query ''/repo'')\<lparr>include_patterns := Some []\<rparr>)
        (new_FileSystemNode ''repo'' DIRECTORY [] ''/repo'') new_FileSystemStats
     = Inr (new_FileSystemNode ''repo'' DIRECTORY [] ''/repo'',
            \<lparr>visited = {''/repo/a.md'', ''/repo/sub''}, total_files = 0, total_size = 0\<rparr>)
   \<and> processNode example_env (local_query ''/repo'')
        (new_FileSystemNode ''repo'' DIRECTORY [] ''/repo'') new_FileSystemStats
     = Inr (example_tree, example_stats)"
proof -
  let ?q = "(local_query ''/repo'')\<lparr>include_patterns := Some []\<rparr>"
  have p: "parseQuery node_posix [] (local_query ''/repo'') MAX_FILE_SIZE
       (Some (PatternSet [])) (Some (PatternSet [])) = Inr ?q"
    by (simp add: parseQuery_def parsePatterns_def pattern_tokens_def new_Set_def
          createIngestionQuery_def local_query_def MAX_FILE_SIZE_def posix_basename_def
          segments_def)
  have q: "local_path ?q = ''/repo''" "ignore_patterns ?q = []" "include_patterns ?q = Some []"
    by (simp_all add: local_query_def)
  have r: "resolveEntry example_env ?q (FileSystemNode ''repo'' DIRECTORY [] ''/repo'' 0 0 0 0 []) st
             \<lparr>d_name = n, d_isSymbolicLink = False\<rparr>
           = (if posix_join [''/repo'', n] \<in> visited st then Skip st
              else Skip (st\<lparr>visited := insert (posix_join [''/repo'', n]) (visited st)\<rparr>))" for st n
    by (simp add: resolveEntry_def Let_def q example_fields shouldInclude_empty)
  have t: "processNode example_env ?q
        (new_FileSystemNode ''repo'' DIRECTORY [] ''/repo'') new_FileSystemStats
     = Inr (new_FileSystemNode ''repo'' DIRECTORY [] ''/repo'',
            \<lparr>visited = {''/repo/a.md'', ''/repo/sub''}, total_files = 0, total_size = 0\<rparr>)"
    by (subst processNode.simps)
       (simp add: limitExceeded_def MAX_DIRECTORY_DEPTH_def MAX_FILES_def
          MAX_TOTAL_SIZE_BYTES_def new_FileSystemNode_def new_FileSystemStats_def
          example_fields r example_paths sortChildren_def with_children_def array_sort_def
          insert_commute)
  show ?thesis
    using p t example_traversal by simp
qed

section \<open>The children of every directory are sorted for display\<close>

text \<open>The comparison function of \<open>sortChildren\<close> is the order of the priority groups.\<close>

lemma compareChildren_iff:
  "compareChildren e a b \<le> 0 \<longleftrightarrow> sorts_before e a b"
  by (simp add: compareChildren_def sortKey_def sorts_before_def priority_group_def Let_def)

lemma sorts_before_total:
  "locale_order e \<Longrightarrow> sorts_before e a b \<or> sorts_before e b a"
  unfolding locale_order_def sorts_before_def by (metis linorder_neqE_nat)

lemma sorts_before_trans:
  "locale_order e \<Longrightarrow> sorts_before e a b \<Longrightarrow> sorts_before e b c \<Longrightarrow> sorts_before e a c"
  unfolding locale_order_def sorts_before_def by (metis less_trans)

lemma set_insert_by: "set (insert_by cmp x ys) = insert x (set ys)"
  by (induction ys) auto

lemma sorted_insert_by:
  assumes "locale_order e" "sorted_wrt (sorts_before e) ys"
  shows "sorted_wrt (sorts_before e) (insert_by (compareChildren e) x ys)"
  using assms(2)
proof (induction ys)
  case Nil
  then show ?case by simp
next
  case (Cons y ys)
  show ?case
  proof (cases "compareChildren e x y \<le> 0")
    case True
    then have xy: "sorts_before e x y" by (simp add: compareChildren_iff)
    have "\<forall>z\<in>set ys. sorts_before e x z"
      using Cons.prems xy sorts_before_trans[OF assms(1)] by auto
    with True xy Cons.prems show ?thesis by simp
  next
    case False
    then have "\<not> sorts_before e x y" by (simp add: compareChildren_iff)
    then have yx: "sorts_before e y x" using sorts_before_total[OF assms(1)] by blast
    with False Cons show ?thesis by (auto simp: set_insert_by)
  qed
qed

lemma sorted_array_sort:
  "locale_order e \<Longrightarrow> sorted_wrt (sorts_before e) (array_sort (compareChildren e) xs)"
  by (induction xs) (simp_all add: array_sort_def sorted_insert_by)

lemma sortChildren_sorted:
  assumes "locale_order e" "sortChildren e node = Inr node'"
  shows "sorted_wrt (sorts_before e) (children node') \<and> mset (children node') = mset (children node)"
proof -
  from assms(2) have "children node' = array_sort (compareChildren e) (children node)"
    by (auto simp: sortChildren_def with_children_def split: if_splits)
  then show ?thesis
    using sorted_array_sort[OF assms(1)] by (simp add: mset_array_sort)
qed

lemma all_sorted_iff:
  "all_sorted e n \<longleftrightarrow> sorted_wrt (sorts_before e) (children n) \<and> (\<forall>c\<in>set (children n). all_sorted e c)"
proof -
  have "list_all (\<lambda>m. sorted_wrt (sorts_before e) (children m)) (descendants n)
        = (\<forall>c\<in>set (children n). all_sorted e c)"
    by (subst descendants_children) (auto simp: list_all_iff all_sorted_def)
  then show ?thesis by (simp add: all_sorted_def)
qed

lemma processFile_children_sorted:
  assumes "processFile e fp parent st lp = Inr (node', st')" "\<forall>c\<in>set (children parent). all_sorted e c"
  shows "\<forall>c\<in>set (children node'). all_sorted e c"
proof -
  have "all_sorted e (FileSystemNode nm FILE ps p sz fc dc d [])" for nm ps p sz fc dc d
    by (simp add: all_sorted_def)
  then show ?thesis
    using assms by (auto simp: processFile_def Let_def split: option.splits if_splits)
qed

lemma traversal_sorted:
  "locale_order e \<Longrightarrow> children node = [] \<Longrightarrow> processNode e q node st = Inr (node', st')
     \<Longrightarrow> all_sorted e node'"
  "locale_order e \<Longrightarrow> \<forall>c\<in>set (children node). all_sorted e c
     \<Longrightarrow> processEntries e q node st entries = Inr (node', st')
     \<Longrightarrow> \<forall>c\<in>set (children node'). all_sorted e c"
proof (induction e q node st and e q node st entries arbitrary: node' st' and node' st'
       rule: processNode_processEntries.induct)
  case (1 e query node stats)
  show ?case
  proof (cases "limitExceeded stats (depth node)")
    case True
    with "1.prems" show ?thesis
      by (simp add: processNode.simps all_sorted_iff[of e node'])
  next
    case False
    with "1.prems"(3) obtain entries n1 where
      rd: "fs_readdir e (path node) = Some entries"
      and pe: "processEntries e query node stats entries = Inr (n1, st')"
      and so: "sortChildren e n1 = Inr node'"
      by (auto simp: processNode.simps split: option.splits sum.splits)
    have "\<forall>c\<in>set (children node). all_sorted e c" using "1.prems"(2) by simp
    from "1.IH"[OF False rd "1.prems"(1) this pe]
    have c: "\<forall>c\<in>set (children n1). all_sorted e c" .
    from sortChildren_sorted[OF "1.prems"(1) so]
    have s: "sorted_wrt (sorts_before e) (children node')"
      and m: "mset (children node') = mset (children n1)" by simp_all
    from m have "set (children node') = set (children n1)" by (rule mset_eq_setD)
    with c s show ?thesis by (simp add: all_sorted_iff[of e node'])
  qed
next
  case (2 e query node stats)
  then show ?case by simp
next
  case (3 e query node stats entry rest)
  show ?case
  proof (cases "resolveEntry e query node stats entry")
    case (Skip s1)
    with "3.prems" "3.IH"(1)[OF Skip] show ?thesis by simp
  next
    case (Throw err)
    with "3.prems" show ?thesis by simp
  next
    case (AFile tp s1)
    with "3.prems"(3) obtain n1 s2 where
      pf: "processFile e tp node s1 (local_path query) = Inr (n1, s2)"
      and r: "processEntries e query n1 s2 rest = Inr (node', st')"
      by (auto split: sum.splits)
    from processFile_children_sorted[OF pf "3.prems"(2)]
    have "\<forall>c\<in>set (children n1). all_sorted e c" .
    from "3.IH"(2)[OF AFile pf refl "3.prems"(1) this r] show ?thesis .
  next
    case (ADirectory tp sp s1)
    with "3.prems"(3) obtain c1 s2 where
      pn: "processNode e query (child_directory_node e query node tp sp) s1 = Inr (c1, s2)"
      and r: "processEntries e query (add_directory node c1) s2 rest = Inr (node', st')"
      by (auto split: sum.splits)
    have fr: "children (child_directory_node e query node tp sp) = []"
      by (simp add: child_directory_node_def split: option.splits)
    from "3.IH"(3)[OF ADirectory "3.prems"(1) fr pn] have "all_sorted e c1" .
    with "3.prems"(2) have "\<forall>c\<in>set (children (add_directory node c1)). all_sorted e c"
      by (simp add: add_directory_def)
    from "3.IH"(4)[OF ADirectory pn refl "3.prems"(1) this r] show ?thesis .
  qed
qed

text \<open>The byte-wise comparison of the POSIX environment orders the strings.\<close>

lemma bytes_compare_head:
  "bytes_compare (a # as) (b # bs) \<le> 0 \<longleftrightarrow>
     (of_char a :: nat) < of_char b \<or> (a = b \<and> bytes_compare as bs \<le> 0)"
proof (cases "(of_char a :: nat) < of_char b")
  case True
  then show ?thesis by simp
next
  case False
  show ?thesis
  proof (cases "(of_char b :: nat) < of_char a")
    case True
    then show ?thesis by auto
  next
    case b: False
    with False have "(of_char a :: nat) = of_char b" by linarith
    then have "a = b" by simp
    then show ?thesis by simp
  qed
qed

lemma bytes_compare_total: "bytes_compare a b \<le> 0 \<or> bytes_compare b a \<le> 0"
proof (induction a b rule: bytes_compare.induct)
  case (4 a as b bs)
  show ?case
  proof (cases "a = b")
    case True
    then have "bytes_compare as bs \<le> 0 \<or> bytes_compare bs as \<le> 0"
      using 4 by simp
    then show ?thesis
      unfolding bytes_compare_head using True by simp
  next
    case False
    then have "(of_char a :: nat) \<noteq> of_char b" by simp
    then have "(of_char a :: nat) < of_char b \<or> (of_char b :: nat) < of_char a"
      by linarith
    then show ?thesis
      unfolding bytes_compare_head by blast
  qed
qed simp_all

lemma bytes_compare_trans:
  "bytes_compare a b \<le> 0 \<Longrightarrow> bytes_compare b c \<le> 0 \<Longrightarrow> bytes_compare a c \<le> 0"
proof (induction a b arbitrary: c rule: bytes_compare.induct)
  case 1
  then show ?case by simp
next
  case (2 b bs)
  show ?case by (cases c) simp_all
next
  case (3 a as)
  then show ?case by simp
next
  case (4 a as b bs)
  show ?case
  proof (cases c)
    case Nil
    with 4(3) show ?thesis by simp
  next
    case (Cons x xs)
    have ab: "(of_char a :: nat) < of_char b \<or> (a = b \<and> bytes_compare as bs \<le> 0)"
      using 4(2) unfolding bytes_compare_head .
    have bx: "(of_char b :: nat) < of_char x \<or> (b = x \<and> bytes_compare bs xs \<le> 0)"
      using 4(3) unfolding Cons bytes_compare_head .
    show ?thesis
    proof (cases "(of_char a :: nat) < of_char x")
      case True
      then show ?thesis unfolding Cons bytes_compare_head by blast
    next
      case False
      with ab bx have e1: "a = b" and e2: "b = x"
        and l1: "bytes_compare as bs \<le> 0" and l2: "bytes_compare bs xs \<le> 0"
        by auto
      have "bytes_compare as xs \<le> 0"
        using 4(1) [of xs] e1 l1 l2 by simp
      then show ?thesis
        unfolding Cons bytes_compare_head using e1 e2 by simp
    qed
  qed
qed

lemma locale_order_posix: "locale_order node_posix"
  unfolding locale_order_def
  using bytes_compare_total bytes_compare_trans by (simp add: node_posix_def)

text \<open>The example directory: the groups of its five children, their order, the rendering.\<close>

lemma display_groups:
  "priority_group node_posix (FileSystemNode ''README.md'' FILE ps p sz fc dc d ch) = 0"
  "priority_group node_posix (FileSystemNode ''b.txt'' FILE ps p sz fc dc d ch) = 1"
  "priority_group node_posix (FileSystemNode ''.env'' FILE ps p sz fc dc d ch) = 2"
  "priority_group node_posix (FileSystemNode ''src'' DIRECTORY ps p sz fc dc d ch) = 3"
  "priority_group node_posix (FileSystemNode ''.git'' DIRECTORY ps p sz fc dc d ch) = 4"
  by (simp_all add: priority_group_def node_posix_def ascii_lower_def startsWith_def char_of_def bit_0)

lemma display_sort:
  "sortChildren node_posix (project_node listed_children) = Inr (project_node displayed_children)"
  by (simp add: sortChildren_def project_node_def listed_children_def displayed_children_def
        with_children_def array_sort_def compareChildren_iff sorts_before_def display_groups)

lemma display_tree:
  "fst (createTreeStructure (local_query ''/proj'') (project_node displayed_children) [] True)
     = last_branch @ ''proj/'' @ nl
       @ ''    '' @ mid_branch @ ''README.md'' @ nl
       @ ''    '' @ mid_branch @ ''b.txt'' @ nl
       @ ''    '' @ mid_branch @ ''.env'' @ nl
       @ ''    '' @ mid_branch @ ''src/'' @ nl
       @ ''    '' @ last_branch @ ''.git/'' @ nl"
  by (simp add: project_node_def displayed_children_def Let_def)

text \<open>
  Claim C8: \<open>sortChildren\<close> compares two children by their priority group on the
  lowercased name (0 for a file named exactly \<open>readme.md\<close>, 1 for the other files that
  are not hidden, 2 for hidden files, 3 for directories that are not hidden, 4 for hidden
  directories) and, within one group, by \<open>localeCompare\<close> on the lowercased names. Where
  \<open>localeCompare\<close> orders the strings, the children of a sorted directory are the same
  children in that order, and \<open>processNode\<close>, which sorts a directory once its entries
  have all been processed, returns a tree in which the children of every node are in that
  order. The children \<open>src\<close>, \<open>.env\<close>, \<open>b.txt\<close>, \<open>.git\<close>, \<open>README.md\<close> are sorted to
  \<open>README.md\<close>, \<open>b.txt\<close>, \<open>.env\<close>, \<open>src\<close>, \<open>.git\<close> and the tree is rendered with the lines
  \<open>README.md\<close>, \<open>b.txt\<close>, \<open>.env\<close>, \<open>src/\<close>, \<open>.git/\<close> in that order.
\<close>

theorem C8_display_order:
  "(compareChildren e a b \<le> 0 \<longleftrightarrow> sorts_before e a b)
   \<and> (locale_order e \<and> sortChildren e node = Inr node'
        \<longrightarrow> sorted_wrt (sorts_before e) (children node')
            \<and> mset (children node') = mset (children node))
   \<and> (locale_order e
        \<and> processNode e q (new_FileSystemNode nm DIRECTORY ps p) st = Inr (root, st')
        \<longrightarrow> (\<forall>n\<in>set (root # descendants root). sorted_wrt (sorts_before e) (children n)))
   \<and> sortChildren node_posix (project_node listed_children)
        = Inr (project_node displayed_children)
   \<and> map name displayed_children = [''README.md'', ''b.txt'', ''.env'', ''src'', ''.git'']
   \<and> fst (createTreeStructure (local_query ''/proj'') (project_node displayed_children) [] True)
        = last_branch @ ''proj/'' @ nl
          @ ''    '' @ mid_branch @ ''README.md'' @ nl
          @ ''    '' @ mid_branch @ ''b.txt'' @ nl
          @ ''    '' @ mid_branch @ ''.env'' @ nl
          @ ''    '' @ mid_branch @ ''src/'' @ nl
          @ ''    '' @ last_branch @ ''.git/'' @ nl"
proof -
  have "locale_order e \<and> processNode e q (new_FileSystemNode nm DIRECTORY ps p) st = Inr (root, st')
        \<longrightarrow> (\<forall>n\<in>set (root # descendants root). sorted_wrt (sorts_before e) (children n))"
  proof
    assume a: "locale_order e \<and> processNode e q (new_FileSystemNode nm DIRECTORY ps p) st = Inr (root, st')"
    have "children (new_FileSystemNode nm DIRECTORY ps p) = []"
      by (simp add: new_FileSystemNode_def)
    with a have "all_sorted e root" using traversal_sorted(1) by blast
    then show "\<forall>n\<in>set (root # descendants root). sorted_wrt (sorts_before e) (children n)"
      by (simp add: all_sorted_def list_all_iff)
  qed
  moreover have "map name displayed_children = [''README.md'', ''b.txt'', ''.env'', ''src'', ''.git'']"
    by (simp add: displayed_children_def)
  ultimately show ?thesis
    using compareChildren_iff sortChildren_sorted display_sort display_tree by blast
qed

theorem C8_display_order_witness:
  "locale_order example_env
   \<and> processNode example_env (local_query ''/repo'')
        (new_FileSystemNode ''repo'' DIRECTORY [] ''/repo'') new_FileSystemStats
       = Inr (example_tree, example_stats)
   \<and> sorted_wrt (sorts_before example_env) (children example_tree)
   \<and> map name (children example_tree) = [''a.md'', ''sub'']
   \<and> locale_order node_posix
   \<and> sortChildren node_posix (project_node listed_children)
        = Inr (project_node displayed_children)
   \<and> sorted_wrt (sorts_before node_posix) displayed_children"
proof -
  have l: "locale_order example_env"
    using locale_order_posix
    by (simp add: locale_order_def example_env_def with_files_def)
  note t = C8_display_order [where e = example_env and q = "local_query ''/repo''"
      and nm = "''repo''" and ps = "[]" and p = "''/repo''" and st = new_FileSystemStats
      and root = example_tree and st' = example_stats]
  note u = C8_display_order [where e = node_posix and node = "project_node listed_children"
      and node' = "project_node displayed_children"]
  have c: "children (project_node displayed_children) = displayed_children"
    by (simp add: project_node_def)
  have n: "map name (children example_tree) = [''a.md'', ''sub'']"
    by (simp add: example_tree_def)
  have "sorted_wrt (sorts_before example_env) (children example_tree)"
    using t l example_traversal by simp
  moreover have "sorted_wrt (sorts_before node_posix) displayed_children"
    using u locale_order_posix c by simp
  ultimately show ?thesis
    using l example_traversal n locale_order_posix u by simp
qed

end
